theory Spec2Isabelle
  imports Complex_Main
begin

section \<open>The star-field animator of the portfolio page\<close>

text \<open>
  The development embeds the star background script (the last
  \<^verbatim>\<open>DOMContentLoaded\<close> listener of the page script): \<^verbatim>\<open>generateStars\<close>,
  \<^verbatim>\<open>render\<close>, \<^verbatim>\<open>updateStars\<close> and the \<^verbatim>\<open>beforeunload\<close> listener.

  Numbers. A JavaScript Number is an IEEE 754 double. A finite double is modelled as the
  real number it denotes, and every arithmetic operation of the script as the exact
  operation followed by rounding to the nearest double, ties to the even significand
  (\<open>fl64\<close>). A literal such as \<^verbatim>\<open>0.00015\<close> denotes the nearest double. Two things are
  outside the model: the sign of a zero, and the upper end of the exponent range (no
  operation overflows to Infinity), as the length of an array is not bounded either: a
  surface so large that the script would exhaust either is not one the model speaks
  about. The one division of the script divides by a star's twinkle speed; a speed of
  zero makes the quotient infinite or NaN and the opacity NaN, which is why an opacity
  is a \<open>number\<close>.

  Environment. \<^verbatim>\<open>Math.random()\<close> and \<^verbatim>\<open>Date.now()\<close> are oracles: the
  environment holds the sequence of values each will return, and the state holds how
  many have been consumed. \<^verbatim>\<open>Math.sin\<close>, which the language leaves to the engine to
  approximate, is a function of the environment too.
\<close>

subsection \<open>Doubles\<close>

text \<open>Rounding a real to the nearest integer, a tie going to the even one.\<close>

definition round_even :: "real \<Rightarrow> int" where
  "round_even v =
     (let f = \<lfloor>v\<rfloor>
      in if v - of_int f < 1 / 2 then f
         else if 1 / 2 < v - of_int f then f + 1
         else if even f then f else f + 1)"

text \<open>The exponent of the unit in the last place of the doubles around \<open>v\<close>: 52 below
  the exponent of \<open>v\<close>, and -1074 throughout the subnormal range.\<close>

definition ulp_exp :: "real \<Rightarrow> int" where
  "ulp_exp v = max \<lfloor>log 2 \<bar>v\<bar>\<rfloor> (- 1022) - 52"

definition fl64 :: "real \<Rightarrow> real" where
  "fl64 v = (if v = 0 then 0 else of_int (round_even (v / 2 powi ulp_exp v)) * 2 powi ulp_exp v)"

definition is_double :: "real \<Rightarrow> bool" where
  "is_double v = (fl64 v = v \<and> \<bar>v\<bar> < 2 ^ 1024)"

definition mul64 :: "real \<Rightarrow> real \<Rightarrow> real" where
  "mul64 a b = fl64 (a * b)"

definition add64 :: "real \<Rightarrow> real \<Rightarrow> real" where
  "add64 a b = fl64 (a + b)"

definition sub64 :: "real \<Rightarrow> real \<Rightarrow> real" where
  "sub64 a b = fl64 (a - b)"

text \<open>Division by a divisor that is not zero.\<close>

definition div64 :: "real \<Rightarrow> real \<Rightarrow> real" where
  "div64 a b = fl64 (a / b)"

datatype number = Num real | NaN

subsection \<open>Data\<close>

record star =
  x :: real
  y :: real
  radius :: real
  opacity :: number
  twinkleSpeed :: "real option"  \<comment> \<open>\<^verbatim>\<open>null\<close> is \<open>None\<close>\<close>

text \<open>The settings block of the script ("You can change these"), passed as a record.\<close>

record settings =
  starDensity :: real
  minTwinkleSpeed :: real
  maxTwinkleSpeed :: real
  twinkleProbability :: real
  allStarsTwinkle :: bool

definition config :: settings where
  "config = \<lparr>starDensity = fl64 0.00015, minTwinkleSpeed = 0.5, maxTwinkleSpeed = 1,
     twinkleProbability = fl64 0.7, allStarsTwinkle = True\<rparr>"

record env =
  math_random :: "nat \<Rightarrow> real"  \<comment> \<open>the n-th result of \<^verbatim>\<open>Math.random()\<close>\<close>
  date_now :: "nat \<Rightarrow> int"      \<comment> \<open>the n-th result of \<^verbatim>\<open>Date.now()\<close>, in milliseconds\<close>
  math_sin :: "real \<Rightarrow> real"     \<comment> \<open>\<^verbatim>\<open>Math.sin\<close> of a finite double\<close>

text \<open>\<^verbatim>\<open>Math.random()\<close> returns a double that is at least 0 and less than 1.\<close>

definition valid_random :: "env \<Rightarrow> bool" where
  "valid_random e =
     (\<forall>n. is_double (math_random e n) \<and> 0 \<le> math_random e n \<and> math_random e n < 1)"


subsection \<open>generateStars\<close>

text \<open>
  One turn of the loop body: the object pushed onto \<^verbatim>\<open>newStars\<close>, and the number of
  random draws consumed so far. \<^verbatim>\<open>allStarsTwinkle || Math.random() < p\<close> draws
  only when the flag is false; the fields are evaluated in the order they are written.
\<close>

definition new_star :: "settings \<Rightarrow> real \<Rightarrow> real \<Rightarrow> (nat \<Rightarrow> real) \<Rightarrow> nat \<Rightarrow> star \<times> nat" where
  "new_star cfg width height rnd p =
     (let (shouldTwinkle, p1) =
            (if allStarsTwinkle cfg then (True, p)
             else (rnd p < twinkleProbability cfg, p + 1))
      in (\<lparr>x = mul64 (rnd p1) width,
           y = mul64 (rnd (p1 + 1)) height,
           radius = add64 (mul64 (rnd (p1 + 2)) (fl64 0.05)) 0.5,
           opacity = Num (add64 (mul64 (rnd (p1 + 3)) 0.5) 0.5),
           twinkleSpeed =
             (if shouldTwinkle
              then Some (add64 (minTwinkleSpeed cfg)
                           (mul64 (rnd (p1 + 4))
                              (sub64 (maxTwinkleSpeed cfg) (minTwinkleSpeed cfg))))
              else None)\<rparr>,
          if shouldTwinkle then p1 + 5 else p1 + 4))"

text \<open>\<^verbatim>\<open>for (let i = 0; i < numStars; i++)\<close>, with \<open>numStars\<close> the integer that \<^verbatim>\<open>Math.floor\<close> returned.\<close>

function generate_loop ::
  "settings \<Rightarrow> real \<Rightarrow> real \<Rightarrow> (nat \<Rightarrow> real) \<Rightarrow> int \<Rightarrow> int \<Rightarrow> star list \<Rightarrow> nat \<Rightarrow> star list \<times> nat" where
  "generate_loop cfg width height rnd numStars i newStars p =
     (if i < numStars
      then (let (st, p') = new_star cfg width height rnd p
            in generate_loop cfg width height rnd numStars (i + 1) (newStars @ [st]) p')
      else (newStars, p))"
  by pat_completeness auto
termination
  by (relation "measure (\<lambda>(cfg, width, height, rnd, numStars, i, newStars, p). nat (numStars - i))") auto

definition generateStars :: "settings \<Rightarrow> real \<Rightarrow> real \<Rightarrow> (nat \<Rightarrow> real) \<Rightarrow> nat \<Rightarrow> star list \<times> nat" where
  "generateStars cfg width height rnd p =
     (let area = mul64 width height;
          numStars = \<lfloor>mul64 area (starDensity cfg)\<rfloor>
      in generate_loop cfg width height rnd numStars 0 [] p)"

subsection \<open>The drawing context, the frame scheduler and the component's state\<close>

text \<open>The calls made on the 2D context are recorded in order. The fill style is the
  string \<^verbatim>\<open>rgba(255, 255, 255, a)\<close>, kept as its four numbers.\<close>

datatype draw_op =
    ClearRect real real real real
  | BeginPath
  | Arc real real real real real
  | FillStyle nat nat nat number
  | Fill

text \<open>
  The closure variables \<^verbatim>\<open>stars\<close> and \<^verbatim>\<open>animationFrameId\<close> (\<^verbatim>\<open>undefined\<close> is
  \<open>None\<close>), the canvas bitmap size, and the part of the browser the script talks to:
  the list of animation frame callbacks waiting for the next frame (each one is
  \<^verbatim>\<open>render\<close>, so only the handles are kept), the counter handles are drawn from,
  the handles passed to \<^verbatim>\<open>cancelAnimationFrame\<close>, and whether the resize observer
  observes the canvas.
\<close>

record world =
  stars :: "star list"
  animationFrameId :: "nat option"
  canvas_width :: nat
  canvas_height :: nat
  ctx_calls :: "draw_op list"
  random_used :: nat
  clock_used :: nat
  frame_counter :: nat
  frame_callbacks :: "nat list"
  cancel_calls :: "nat list"
  observing :: bool

definition initial :: world where
  "initial = \<lparr>stars = [], animationFrameId = None, canvas_width = 300, canvas_height = 150,
     ctx_calls = [], random_used = 0, clock_used = 0, frame_counter = 0,
     frame_callbacks = [], cancel_calls = [], observing = False\<rparr>"

text \<open>\<^verbatim>\<open>requestAnimationFrame\<close> increments the document's callback identifier, queues
  the callback under the new identifier and returns it; the first handle is 1.\<close>

definition requestAnimationFrame :: "world \<Rightarrow> nat \<times> world" where
  "requestAnimationFrame s =
     (let h = frame_counter s + 1
      in (h, s\<lparr>frame_counter := h, frame_callbacks := frame_callbacks s @ [h]\<rparr>))"

definition cancelAnimationFrame :: "nat \<Rightarrow> world \<Rightarrow> world" where
  "cancelAnimationFrame h s =
     s\<lparr>frame_callbacks := filter (\<lambda>k. k \<noteq> h) (frame_callbacks s),
       cancel_calls := cancel_calls s @ [h]\<rparr>"

text \<open>Assigning \<^verbatim>\<open>canvas.width\<close>: the number is truncated to an unsigned 32-bit
  integer, and a value above \<open>2\<^sup>3\<^sup>1 - 1\<close> is replaced by the attribute's default.\<close>

definition to_dimension :: "real \<Rightarrow> nat \<Rightarrow> nat" where
  "to_dimension v dflt =
     (let n = (if v < 0 then - \<lfloor>- v\<rfloor> else \<lfloor>v\<rfloor>) mod 2 ^ 32
      in if n \<le> 2147483647 then nat n else dflt)"

subsection \<open>render\<close>

text \<open>\<^verbatim>\<open>canvas\<close> is a constant that the listener has tested before it defines
  \<^verbatim>\<open>render\<close> and \<^verbatim>\<open>updateStars\<close>, so their first line, \<^verbatim>\<open>if (!canvas) return\<close>, never
  returns, and neither does the test in the \<^verbatim>\<open>beforeunload\<close> listener fail.\<close>

definition draw_star :: "star \<Rightarrow> draw_op list" where
  "draw_star st =
     [BeginPath, Arc (x st) (y st) (radius st) 0 (mul64 (fl64 pi) 2),
      FillStyle 255 255 255 (opacity st), Fill]"

text \<open>\<^verbatim>\<open>0.5 + Math.abs(Math.sin((Date.now() * 0.001) / star.twinkleSpeed) * 0.5)\<close>.
  With a speed of zero the quotient is an infinity or, when the clock reads zero, NaN;
  the sine of either is NaN, and so is everything computed from it.\<close>

definition twinkle :: "env \<Rightarrow> int \<Rightarrow> real \<Rightarrow> number" where
  "twinkle e t speed =
     (if speed = 0 then NaN
      else Num (add64 0.5
                 \<bar>mul64 (math_sin e (div64 (mul64 (real_of_int t) (fl64 0.001)) speed)) 0.5\<bar>))"

text \<open>The body of \<^verbatim>\<open>stars.forEach\<close>: each star is drawn, then, if its twinkle speed is
  not \<^verbatim>\<open>null\<close>, the clock is read and its opacity overwritten.\<close>

fun render_stars ::
  "env \<Rightarrow> star list \<Rightarrow> draw_op list \<Rightarrow> nat \<Rightarrow> star list \<times> draw_op list \<times> nat" where
  "render_stars e [] calls c = ([], calls, c)"
| "render_stars e (st # rest) calls c =
     (let calls1 = calls @ draw_star st
      in case twinkleSpeed st of
           None \<Rightarrow>
             (let (rest', calls', c') = render_stars e rest calls1 c
              in (st # rest', calls', c'))
         | Some speed \<Rightarrow>
             (let st' = st\<lparr>opacity := twinkle e (date_now e c) speed\<rparr>;
                  (rest', calls', c') = render_stars e rest calls1 (c + 1)
              in (st' # rest', calls', c')))"

definition render :: "env \<Rightarrow> world \<Rightarrow> world" where
  "render e s =
     (let calls0 = ctx_calls s
                   @ [ClearRect 0 0 (real (canvas_width s)) (real (canvas_height s))];
          (stars', calls', c') = render_stars e (stars s) calls0 (clock_used s);
          s1 = s\<lparr>stars := stars', ctx_calls := calls', clock_used := c'\<rparr>;
          (h, s2) = requestAnimationFrame s1
      in s2\<lparr>animationFrameId := Some h\<rparr>)"

subsection \<open>updateStars\<close>

text \<open>\<^verbatim>\<open>!animationFrameId\<close> holds of \<^verbatim>\<open>undefined\<close> and of the number 0.\<close>

definition falsy :: "nat option \<Rightarrow> bool" where
  "falsy v = (case v of None \<Rightarrow> True | Some h \<Rightarrow> h = 0)"

text \<open>\<open>width\<close> and \<open>height\<close> are what \<^verbatim>\<open>canvas.getBoundingClientRect()\<close> returns
  during the call.\<close>

definition updateStars :: "settings \<Rightarrow> env \<Rightarrow> real \<Rightarrow> real \<Rightarrow> world \<Rightarrow> world" where
  "updateStars cfg e width height s =
     (if width = 0 \<or> height = 0 then s
      else (let s1 = s\<lparr>canvas_width := to_dimension width 300,
                        canvas_height := to_dimension height 150\<rparr>;
                (newStars, p) = generateStars cfg width height (math_random e) (random_used s1);
                s2 = s1\<lparr>stars := newStars, random_used := p\<rparr>
            in if falsy (animationFrameId s2) then render e s2 else s2))"

subsection \<open>The listeners and the events of the page\<close>

text \<open>The \<^verbatim>\<open>beforeunload\<close> listener. \<^verbatim>\<open>cancelAnimationFrame(undefined)\<close> cancels
  handle 0, which no callback has.\<close>

definition beforeunload :: "world \<Rightarrow> world" where
  "beforeunload s =
     (let s1 = cancelAnimationFrame (case animationFrameId s of None \<Rightarrow> 0 | Some h \<Rightarrow> h) s
      in s1\<lparr>observing := False\<rparr>)"

text \<open>The body of the \<^verbatim>\<open>DOMContentLoaded\<close> listener once the canvas and its context
  are there: the first call of \<^verbatim>\<open>updateStars\<close>, then the observer is attached.\<close>

definition boot :: "settings \<Rightarrow> env \<Rightarrow> real \<Rightarrow> real \<Rightarrow> world" where
  "boot cfg e width height = (updateStars cfg e width height initial)\<lparr>observing := True\<rparr>"


text \<open>A frame runs the callbacks that were waiting when it began; callbacks queued
  meanwhile wait for the next frame.\<close>

definition run_frame :: "env \<Rightarrow> world \<Rightarrow> world" where
  "run_frame e s = fold (\<lambda>h. render e) (frame_callbacks s) (s\<lparr>frame_callbacks := []\<rparr>)"

text \<open>What the browser can do to the page: notify the resize observer (with the size
  the canvas then has), run a frame, or unload. A notification is delivered only while
  the canvas is observed, a frame runs callbacks only if some are waiting.\<close>

datatype event = Resize real real | Frame | Unload

fun delivers :: "event \<Rightarrow> world \<Rightarrow> bool" where
  "delivers (Resize width height) s = observing s"
| "delivers Frame s = (frame_callbacks s \<noteq> [])"
| "delivers Unload s = True"

fun handle :: "settings \<Rightarrow> env \<Rightarrow> event \<Rightarrow> world \<Rightarrow> world" where
  "handle cfg e (Resize width height) s = updateStars cfg e width height s"
| "handle cfg e Frame s = run_frame e s"
| "handle cfg e Unload s = beforeunload s"

definition fire :: "settings \<Rightarrow> env \<Rightarrow> event \<Rightarrow> world \<Rightarrow> world" where
  "fire cfg e ev s = (if delivers ev s then handle cfg e ev s else s)"

definition run :: "settings \<Rightarrow> env \<Rightarrow> world \<Rightarrow> event list \<Rightarrow> world" where
  "run cfg e s evs = fold (fire cfg e) evs s"

text \<open>Animating: a frame callback is waiting. Idle: none is.\<close>

definition animating :: "world \<Rightarrow> bool" where
  "animating s = (frame_callbacks s \<noteq> [])"

definition nonzero :: "event \<Rightarrow> bool" where
  "nonzero ev = (case ev of Resize width height \<Rightarrow> width \<noteq> 0 \<and> height \<noteq> 0 | _ \<Rightarrow> False)"

subsection \<open>Auxiliary notions\<close>

text \<open>The number of clock reads \<^verbatim>\<open>forEach\<close> has made when it reaches the star at
  index \<open>i\<close>: one for each twinkling star before it.\<close>

definition reads_before :: "star list \<Rightarrow> nat \<Rightarrow> nat" where
  "reads_before sts i = length (filter (\<lambda>st. twinkleSpeed st \<noteq> None) (take i sts))"

text \<open>What holds of the page from the end of \<^verbatim>\<open>DOMContentLoaded\<close> until it unloads:
  nothing has been cancelled, the canvas is observed, and the callbacks waiting are
  exactly the one whose handle \<^verbatim>\<open>animationFrameId\<close> holds, if it holds one.\<close>

definition loop_inv :: "world \<Rightarrow> bool" where
  "loop_inv s =
     (cancel_calls s = [] \<and> observing s \<and>
      (case animationFrameId s of
         None \<Rightarrow> frame_callbacks s = []
       | Some h \<Rightarrow> 0 < h \<and> frame_callbacks s = [h]))"

text \<open>The number of transitions from Idle to Animating along a run.\<close>

fun starts :: "settings \<Rightarrow> env \<Rightarrow> world \<Rightarrow> event list \<Rightarrow> nat" where
  "starts cfg e s [] = 0"
| "starts cfg e s (ev # evs) =
     (if \<not> animating s \<and> animating (fire cfg e ev s) then 1 else 0)
     + starts cfg e (fire cfg e ev s) evs"

text \<open>After the unload: no callback is waiting and the canvas is not observed.\<close>

definition stopped :: "world \<Rightarrow> bool" where
  "stopped s = (frame_callbacks s = [] \<and> \<not> observing s)"


subsection \<open>Concrete environments\<close>

text \<open>Every draw is one half, the clock stands at one second, and the sine is the
  correctly rounded one.\<close>

definition env_half :: env where
  "env_half = \<lparr>math_random = (\<lambda>n. 1 / 2), date_now = (\<lambda>n. 1000),
     math_sin = (\<lambda>v. fl64 (sin v))\<rparr>"

text \<open>Every draw is the largest double below 1.\<close>

definition env_top :: env where
  "env_top = \<lparr>math_random = (\<lambda>n. 1 - 1 / 2 ^ 53), date_now = (\<lambda>n. 1000),
     math_sin = (\<lambda>v. fl64 (sin v))\<rparr>"

text \<open>Every draw is one half and the clock reads 1762153214041 (3 November 2025). At the
  two arguments that matter below, \<open>2349537618.7213335\<close> and \<open>2349537618.721333\<close>, the
  sine is the double an engine returns there, \<open>-0.0008726398100314564\<close> and
  \<open>-0.0008731166470080045\<close>.\<close>

definition env_clock :: env where
  "env_clock = \<lparr>math_random = (\<lambda>n. 1 / 2), date_now = (\<lambda>n. 1762153214041),
     math_sin = (\<lambda>v. if v = 2463668758088341 / 1048576 then - (8048681622090399 / 9223372036854775808)
                     else if v = 4927337516176681 / 2097152 then - (8053079666926031 / 9223372036854775808)
                     else fl64 (sin v))\<rparr>"

text \<open>A state with one twinkling and one static star.\<close>

definition two_stars :: world where
  "two_stars = initial\<lparr>stars :=
     [\<lparr>x = 50, y = 50, radius = 17 / 32, opacity = Num (3 / 4), twinkleSpeed = Some (3 / 4)\<rparr>,
      \<lparr>x = 10, y = 20, radius = 1 / 2, opacity = Num (5 / 8), twinkleSpeed = None\<rparr>]\<rparr>"

section \<open>Rounding to doubles\<close>

lemma round_even_int [simp]: "round_even (of_int n) = n"
  by (simp add: round_even_def)

lemma round_even_bounds:
  "of_int (round_even v) \<le> v + 1 / 2" "v - 1 / 2 \<le> of_int (round_even v)"
  unfolding round_even_def Let_def by (auto split: if_splits) linarith+

lemma round_even_mono: "v \<le> w \<Longrightarrow> round_even v \<le> round_even w"
proof -
  assume le: "v \<le> w"
  have fl: "\<lfloor>v\<rfloor> \<le> \<lfloor>w\<rfloor>" using le by (rule floor_mono)
  show ?thesis
  proof (cases "\<lfloor>v\<rfloor> = \<lfloor>w\<rfloor>")
    case True
    then show ?thesis using le
      unfolding round_even_def Let_def by (auto split: if_splits)
  next
    case False
    then have "\<lfloor>v\<rfloor> + 1 \<le> \<lfloor>w\<rfloor>" using fl by simp
    moreover have "round_even v \<le> \<lfloor>v\<rfloor> + 1"
      unfolding round_even_def Let_def by (auto split: if_splits)
    moreover have "\<lfloor>w\<rfloor> \<le> round_even w"
      unfolding round_even_def Let_def by (auto split: if_splits)
    ultimately show ?thesis by linarith
  qed
qed

lemma round_even_minus: "round_even (- v) = - round_even v"
proof (cases "v = of_int \<lfloor>v\<rfloor>")
  case True
  then obtain n where "v = of_int n" by blast
  then show ?thesis by (simp add: round_even_def flip: of_int_minus)
next
  case False
  then have f: "\<lfloor>- v\<rfloor> = - \<lfloor>v\<rfloor> - 1"
    by (metis ceiling_altdef ceiling_def add_diff_cancel_right' minus_diff_eq minus_minus uminus_add_conv_diff of_int_floor_cancel)
  have lt: "of_int \<lfloor>v\<rfloor> < v" using False by (metis of_int_floor_le less_le)
  show ?thesis
    unfolding round_even_def Let_def f using lt
    by (auto split: if_splits simp: algebra_simps)
qed

lemma floor_log2_bounds:
  assumes "0 < v"
  shows "2 powi \<lfloor>log 2 v\<rfloor> \<le> v" "v < 2 powi (\<lfloor>log 2 v\<rfloor> + 1)"
proof -
  have p: "(2::real) powr real_of_int j = 2 powi j" for j
    by (simp add: powr_real_of_int')
  have "2 powr real_of_int \<lfloor>log 2 v\<rfloor> \<le> v \<and> v < 2 powr (real_of_int \<lfloor>log 2 v\<rfloor> + 1)"
    using floor_log_eq_powr_iff [of v 2 "\<lfloor>log 2 v\<rfloor>"] assms by simp
  then have "2 powr real_of_int \<lfloor>log 2 v\<rfloor> \<le> v \<and> v < 2 powr real_of_int (\<lfloor>log 2 v\<rfloor> + 1)"
    by simp
  then show "2 powi \<lfloor>log 2 v\<rfloor> \<le> v" "v < 2 powi (\<lfloor>log 2 v\<rfloor> + 1)"
    unfolding p by simp_all
qed

lemma floor_log2_eq:
  assumes "2 powi k \<le> v" "v < 2 powi (k + 1)"
  shows "\<lfloor>log 2 v\<rfloor> = k"
proof -
  have p: "(2::real) powr real_of_int j = 2 powi j" for j
    by (simp add: powr_real_of_int')
  have "0 < v" using assms(1) by (rule less_le_trans [rotated]) simp
  moreover have "2 powr real_of_int k \<le> v \<and> v < 2 powr (real_of_int k + 1)"
    using assms p [of k] p [of "k + 1"] by simp
  ultimately show ?thesis
    using floor_log_eq_powr_iff [of v 2 k] by simp
qed

lemma ulp_exp_eq:
  assumes "2 powi k \<le> \<bar>v\<bar>" "\<bar>v\<bar> < 2 powi (k + 1)"
  shows "ulp_exp v = max k (- 1022) - 52"
  using floor_log2_eq [OF assms] by (simp add: ulp_exp_def)

lemma fl64_eval:
  assumes "2 powi k \<le> \<bar>v\<bar>" "\<bar>v\<bar> < 2 powi (k + 1)"
  shows "fl64 v = of_int (round_even (v / 2 powi (max k (- 1022) - 52))) * 2 powi (max k (- 1022) - 52)"
proof -
  have "0 < \<bar>v\<bar>" using assms(1) by (rule less_le_trans [rotated]) simp
  then have "v \<noteq> 0" by simp
  then show ?thesis by (simp add: fl64_def ulp_exp_eq [OF assms])
qed

lemma fl64_zero [simp]: "fl64 0 = 0"
  by (simp add: fl64_def)

lemma ulp_exp_minus [simp]: "ulp_exp (- v) = ulp_exp v"
  by (simp add: ulp_exp_def)

lemma fl64_minus: "fl64 (- v) = - fl64 v"
  by (simp add: fl64_def round_even_minus)

lemma fl64_nonneg: "0 \<le> v \<Longrightarrow> 0 \<le> fl64 v"
proof -
  assume "0 \<le> v"
  then have "0 \<le> v / 2 powi ulp_exp v" by simp
  then have "round_even 0 \<le> round_even (v / 2 powi ulp_exp v)" by (rule round_even_mono)
  then have "0 \<le> round_even (v / 2 powi ulp_exp v)" by (simp add: round_even_def)
  then show ?thesis by (simp add: fl64_def)
qed

lemma fl64_upper:
  assumes "0 < v"
  shows "fl64 v \<le> 2 powi (ulp_exp v + 53)"
proof -
  let ?q = "ulp_exp v"
  have "v < 2 powi (\<lfloor>log 2 v\<rfloor> + 1)" using assms by (rule floor_log2_bounds)
  also have "\<dots> \<le> 2 powi (?q + 53)"
    using assms by (intro power_int_increasing) (simp_all add: ulp_exp_def)
  finally have "v / 2 powi ?q \<le> 2 powi (?q + 53) / 2 powi ?q"
    by (simp add: divide_right_mono)
  also have "\<dots> = of_int (2 ^ 53)" by (simp add: power_int_add)
  finally have "round_even (v / 2 powi ?q) \<le> round_even (of_int (2 ^ 53))"
    by (rule round_even_mono)
  then have "real_of_int (round_even (v / 2 powi ?q)) * 2 powi ?q \<le> real_of_int (2 ^ 53) * 2 powi ?q"
    by (intro mult_right_mono) (simp_all del: of_int_power of_int_numeral)
  also have "\<dots> = 2 powi (?q + 53)" by (simp add: power_int_add)
  finally show ?thesis using assms by (simp add: fl64_def)
qed

lemma fl64_lower:
  assumes "0 < v" "- 1022 \<le> \<lfloor>log 2 v\<rfloor>"
  shows "2 powi \<lfloor>log 2 v\<rfloor> \<le> fl64 v"
proof -
  let ?e = "\<lfloor>log 2 v\<rfloor>"
  have q: "ulp_exp v = ?e - 52" using assms by (simp add: ulp_exp_def)
  have "real_of_int (2 ^ 52) = 2 powi ?e / 2 powi (?e - 52)"
    by (simp add: power_int_diff)
  also have "\<dots> \<le> v / 2 powi (?e - 52)"
    using floor_log2_bounds(1) [OF assms(1)] by (simp add: divide_right_mono)
  finally have "round_even (of_int (2 ^ 52)) \<le> round_even (v / 2 powi (?e - 52))"
    by (rule round_even_mono)
  then have "real_of_int (2 ^ 52) * 2 powi (?e - 52) \<le> real_of_int (round_even (v / 2 powi (?e - 52))) * 2 powi (?e - 52)"
    by (intro mult_right_mono) (simp_all del: of_int_power of_int_numeral)
  then have "(2::real) powi ?e \<le> real_of_int (round_even (v / 2 powi (?e - 52))) * 2 powi (?e - 52)"
    by (simp add: power_int_diff)
  moreover have "fl64 v = real_of_int (round_even (v / 2 powi (?e - 52))) * 2 powi (?e - 52)"
    using assms(1) by (simp add: fl64_def q)
  ultimately show ?thesis by (simp only:)
qed

lemma fl64_mono_pos:
  assumes "0 < v" "v \<le> w"
  shows "fl64 v \<le> fl64 w"
proof -
  have w: "0 < w" using assms by simp
  have e: "\<lfloor>log 2 v\<rfloor> \<le> \<lfloor>log 2 w\<rfloor>"
    using assms by (intro floor_mono) simp
  then have q: "ulp_exp v \<le> ulp_exp w"
    using assms w by (simp add: ulp_exp_def)
  show ?thesis
  proof (cases "ulp_exp v = ulp_exp w")
    case True
    have "v / 2 powi ulp_exp w \<le> w / 2 powi ulp_exp w"
      using assms(2) by (simp add: divide_right_mono)
    then have "round_even (v / 2 powi ulp_exp w) \<le> round_even (w / 2 powi ulp_exp w)"
      by (rule round_even_mono)
    then have "real_of_int (round_even (v / 2 powi ulp_exp w)) * 2 powi ulp_exp w
               \<le> real_of_int (round_even (w / 2 powi ulp_exp w)) * 2 powi ulp_exp w"
      by (intro mult_right_mono) simp_all
    then show ?thesis using assms w by (simp add: fl64_def True)
  next
    case False
    then have lt: "ulp_exp v < ulp_exp w" using q by simp
    then have n: "- 1022 \<le> \<lfloor>log 2 w\<rfloor>" and qw: "ulp_exp w = \<lfloor>log 2 w\<rfloor> - 52"
      using w assms(1) by (auto simp: ulp_exp_def max_def split: if_splits)
    have "fl64 v \<le> 2 powi (ulp_exp v + 53)" using assms(1) by (rule fl64_upper)
    also have "\<dots> \<le> 2 powi \<lfloor>log 2 w\<rfloor>"
      using lt qw by (intro power_int_increasing) simp_all
    also have "\<dots> \<le> fl64 w" using w n by (rule fl64_lower)
    finally show ?thesis .
  qed
qed

lemma fl64_mono: "v \<le> w \<Longrightarrow> fl64 v \<le> fl64 w"
proof -
  assume le: "v \<le> w"
  consider "0 < v" | "v \<le> 0" "0 \<le> w" | "w < 0" by linarith
  then show ?thesis
  proof cases
    case 1
    then show ?thesis using le by (rule fl64_mono_pos)
  next
    case 2
    have "fl64 v \<le> 0" using fl64_nonneg [of "- v"] 2(1) by (simp add: fl64_minus)
    moreover have "0 \<le> fl64 w" using 2(2) by (rule fl64_nonneg)
    ultimately show ?thesis by simp
  next
    case 3
    then have "fl64 (- w) \<le> fl64 (- v)" using le by (intro fl64_mono_pos) simp_all
    then show ?thesis by (simp add: fl64_minus)
  qed
qed

lemma powi2_less_D: "(2::real) powi m < 2 powi n \<Longrightarrow> m < n"
proof (rule ccontr)
  assume a: "(2::real) powi m < 2 powi n" and "\<not> m < n"
  then have "n \<le> m" by simp
  then have "(2::real) powi n \<le> 2 powi m" by (intro power_int_increasing) simp_all
  then show False using a by simp
qed

lemma fl64_half: "fl64 (1 / 2) = 1 / 2"
  by (simp add: fl64_eval [where k = "- 1"] round_even_def)

lemma fl64_one: "fl64 1 = 1"
  by (simp add: fl64_eval [where k = 0] round_even_def)

lemma double_below_one:
  assumes "is_double r" "0 \<le> r" "r < 1"
  shows "r \<le> 1 - 1 / 2 ^ 53"
proof (cases "r = 0")
  case True
  then show ?thesis by simp
next
  case False
  then have pos: "0 < r" using assms(2) by simp
  let ?e = "\<lfloor>log 2 r\<rfloor>"
  have "2 powi ?e \<le> r" using pos by (rule floor_log2_bounds)
  then have "(2::real) powi ?e < 2 powi 0" using assms(3) by simp
  then have "?e < 0" by (rule powi2_less_D)
  then have e: "?e \<le> - 1" by linarith
  show ?thesis
  proof (cases "?e = - 1")
    case True
    then have q: "ulp_exp r = - 53" using pos by (simp add: ulp_exp_def)
    define n where "n = round_even (r / 2 powi (- 53))"
    have r: "r = of_int n * 2 powi (- 53)"
      using assms(1) False by (simp add: is_double_def fl64_def q n_def)
    then have "real_of_int n < 2 ^ 53" using assms(3) by (simp add: power_int_minus field_simps)
    then have "real_of_int n < real_of_int (2 ^ 53)" by simp
    then have "n < 2 ^ 53" by (simp only: of_int_less_iff)
    then have "n \<le> 2 ^ 53 - 1" by simp
    then have "real_of_int n \<le> real_of_int (2 ^ 53 - 1)" by (simp only: of_int_le_iff)
    then have "real_of_int n \<le> 2 ^ 53 - 1" by simp
    then have "real_of_int n * 2 powi (- 53) \<le> (2 ^ 53 - 1) * 2 powi (- 53)"
      by (intro mult_right_mono) simp_all
    also have "\<dots> = 1 - 1 / 2 ^ 53" by (simp add: power_int_minus field_simps)
    finally show ?thesis unfolding r .
  next
    case False
    then have "?e + 1 \<le> - 1" using e by simp
    then have "(2::real) powi (?e + 1) \<le> 2 powi (- 1)" by (intro power_int_increasing) simp_all
    moreover have "r < 2 powi (?e + 1)" using pos by (rule floor_log2_bounds)
    ultimately have "r < 1 / 2" by (simp add: power_int_minus)
    then show ?thesis by simp
  qed
qed

lemma fl64_scaled_below:
  assumes dbl: "fl64 w = w" and big: "2 powi (- 1021) \<le> w"
  shows "fl64 ((1 - 1 / 2 ^ 53) * w) < w"
proof -
  have pos: "0 < w" using big by (rule less_le_trans [rotated]) simp
  define e where "e = \<lfloor>log 2 w\<rfloor>"
  have lo: "2 powi e \<le> w" and hi: "w < 2 powi (e + 1)"
    unfolding e_def using pos by (rule floor_log2_bounds)+
  have "(2::real) powi (- 1021) < 2 powi (e + 1)" using big hi by simp
  then have "- 1021 < e + 1" by (rule powi2_less_D)
  then have e: "- 1021 \<le> e" by linarith
  then have q: "ulp_exp w = e - 52" using pos by (simp add: ulp_exp_def e_def)
  define u :: real where "u = 2 powi (e - 52)"
  have u: "0 < u" by (simp add: u_def)
  define n where "n = round_even (w / u)"
  have w: "w = of_int n * u"
    using dbl pos by (simp add: fl64_def q n_def u_def)
  have pe: "(2::real) powi e = 2 ^ 52 * u"
    by (simp add: u_def power_int_diff)
  have pe1: "(2::real) powi (e + 1) = 2 ^ 53 * u"
    by (simp add: u_def power_int_diff power_int_add)
  have nlo: "2 ^ 52 \<le> real_of_int n" using lo u unfolding pe w by simp
  have nhi: "real_of_int n < 2 ^ 53" using hi u unfolding pe1 w by simp
  let ?y = "(1 - 1 / 2 ^ 53) * w"
  show ?thesis
  proof (cases "real_of_int n = 2 ^ 52")
    case True
    then have w2: "w = 2 powi e" using w pe by simp
    have y: "?y = (2 ^ 53 - 1) * 2 powi (e - 53)"
      unfolding w2 by (simp add: power_int_diff field_simps)
    have b1: "2 powi (e - 1) \<le> \<bar>?y\<bar>"
      unfolding y by (simp add: power_int_diff field_simps)
    have b2: "\<bar>?y\<bar> < 2 powi (e - 1 + 1)"
      unfolding y by (simp add: power_int_diff field_simps)
    have m: "max (e - 1) (- 1022) - 52 = e - 53" using e by simp
    have "?y / 2 powi (e - 53) = real_of_int (2 ^ 53 - 1)"
      unfolding y by simp
    then have "fl64 ?y = real_of_int (2 ^ 53 - 1) * 2 powi (e - 53)"
      unfolding fl64_eval [OF b1 b2] m by (simp only: round_even_int)
    also have "\<dots> = ?y" unfolding y by simp
    also have "\<dots> < w" using pos by (simp add: field_simps)
    finally show ?thesis .
  next
    case False
    then have n1: "2 ^ 52 + 1 \<le> real_of_int n"
    proof -
      have "real_of_int (2 ^ 52) < real_of_int n" using nlo False by simp
      then have "2 ^ 52 < n" by (simp only: of_int_less_iff)
      then have "2 ^ 52 + 1 \<le> n" by simp
      then have "real_of_int (2 ^ 52 + 1) \<le> real_of_int n" by (simp only: of_int_le_iff)
      then show ?thesis by simp
    qed
    define z where "z = real_of_int n - real_of_int n / 2 ^ 53"
    have yz: "?y = z * u" unfolding w z_def by (simp add: field_simps)
    have z1: "real_of_int (n - 1) \<le> z" using nhi unfolding z_def by (simp add: field_simps)
    have z2: "z < real_of_int (n - 1) + 1 / 2" using n1 unfolding z_def by (simp add: field_simps)
    have fz: "\<lfloor>z\<rfloor> = n - 1" using z1 z2 by (intro floor_unique) simp_all
    have rz: "round_even z = n - 1"
      unfolding round_even_def Let_def fz using z2 by simp
    have "2 powi e \<le> real_of_int (n - 1) * u"
      unfolding pe using n1 u by simp
    also have "\<dots> \<le> z * u" using z1 u by simp
    finally have b1: "2 powi e \<le> \<bar>?y\<bar>" using yz by simp
    have "?y < w" using pos by (simp add: field_simps)
    then have b2: "\<bar>?y\<bar> < 2 powi (e + 1)" using hi pos by simp
    have m: "max e (- 1022) - 52 = e - 52" using e by simp
    have "?y / 2 powi (e - 52) = z" using yz u unfolding u_def by simp
    then have "fl64 ?y = real_of_int (n - 1) * u"
      unfolding fl64_eval [OF b1 b2] m using rz by (simp add: u_def)
    also have "\<dots> < w" unfolding w using u by simp
    finally show ?thesis .
  qed
qed

lemma fl64_product_below:
  assumes "is_double w" "2 powi (- 1021) \<le> w" "is_double r" "0 \<le> r" "r < 1"
  shows "fl64 (r * w) < w"
proof -
  have pos: "0 < w" using assms(2) by (rule less_le_trans [rotated]) simp
  have "r \<le> 1 - 1 / 2 ^ 53" using assms(3,4,5) by (rule double_below_one)
  then have "r * w \<le> (1 - 1 / 2 ^ 53) * w" using pos by (intro mult_right_mono) simp_all
  then have "fl64 (r * w) \<le> fl64 ((1 - 1 / 2 ^ 53) * w)" by (rule fl64_mono)
  also have "\<dots> < w" using assms(1,2) by (intro fl64_scaled_below) (simp_all add: is_double_def)
  finally show ?thesis .
qed

section \<open>Generation\<close>

declare generate_loop.simps [simp del]

lemma generate_loop_length:
  "length (fst (generate_loop cfg width height rnd numStars i newStars p)) = length newStars + nat (numStars - i)"
proof (induction cfg width height rnd numStars i newStars p rule: generate_loop.induct)
  case (1 cfg width height rnd numStars i newStars p)
  show ?case
  proof (cases "i < numStars")
    case True
    obtain st p' where ns: "new_star cfg width height rnd p = (st, p')"
      by (cases "new_star cfg width height rnd p")
    have "length (fst (generate_loop cfg width height rnd numStars (i + 1) (newStars @ [st]) p'))
          = length (newStars @ [st]) + nat (numStars - (i + 1))"
      using "1.IH" [OF True refl ns [symmetric]] .
    moreover have "nat (numStars - i) = Suc (nat (numStars - (i + 1)))"
      using True by simp
    ultimately show ?thesis
      using True ns by (simp add: generate_loop.simps [of cfg width height rnd numStars i])
  next
    case False
    then show ?thesis
      by (simp add: generate_loop.simps [of cfg width height rnd numStars i])
  qed
qed

lemma generate_loop_all:
  "(\<And>q. P (fst (new_star cfg width height rnd q))) \<Longrightarrow> list_all P newStars \<Longrightarrow>
   list_all P (fst (generate_loop cfg width height rnd numStars i newStars p))"
proof (induction cfg width height rnd numStars i newStars p rule: generate_loop.induct)
  case (1 cfg width height rnd numStars i newStars p)
  show ?case
  proof (cases "i < numStars")
    case True
    obtain st p' where ns: "new_star cfg width height rnd p = (st, p')"
      by (cases "new_star cfg width height rnd p")
    have "P (fst (new_star cfg width height rnd p))" by (rule "1.prems"(1))
    then have "P st" unfolding ns fst_conv .
    then have "list_all P (newStars @ [st])" using "1.prems"(2) by simp
    then have "list_all P (fst (generate_loop cfg width height rnd numStars (i + 1) (newStars @ [st]) p'))"
      using "1.IH" [OF True refl ns [symmetric]] "1.prems"(1) by blast
    then show ?thesis
      using True ns by (simp add: generate_loop.simps [of cfg width height rnd numStars i])
  next
    case False
    then show ?thesis using "1.prems"(2)
      by (simp add: generate_loop.simps [of cfg width height rnd numStars i])
  qed
qed

lemma generateStars_length:
  "int (length (fst (generateStars cfg width height rnd p)))
   = max 0 \<lfloor>mul64 (mul64 width height) (starDensity cfg)\<rfloor>"
  by (simp add: generateStars_def generate_loop_length)

lemma density_val: "fl64 (3 / 20000) = 5534023222112865 / 36893488147419103232"
  by (simp add: fl64_eval [where k = "- 13"] round_even_def)

lemma c005_val: "fl64 (1 / 20) = 3602879701896397 / 72057594037927936"
  by (simp add: fl64_eval [where k = "- 5"] round_even_def)

lemma fl64_100: "fl64 100 = 100"
  by (simp add: fl64_eval [where k = "6"] round_even_def)

lemma mul_1000: "mul64 1000 1000 = 1000000"
  by (simp add: mul64_def fl64_eval [where k = "19"] round_even_def)

lemma mul_million: "mul64 1000000 (5534023222112865 / 36893488147419103232) = 150"
  by (simp add: mul64_def fl64_eval [where k = "7"] round_even_def)

lemma mul_200: "mul64 200 100 = 20000"
  by (simp add: mul64_def fl64_eval [where k = "14"] round_even_def)

lemma mul_20000: "mul64 20000 (5534023222112865 / 36893488147419103232) = 6755399441055743 / 2251799813685248"
  by (simp add: mul64_def fl64_eval [where k = "1"] round_even_def)

lemma mul_100: "mul64 100 100 = 10000"
  by (simp add: mul64_def fl64_eval [where k = "13"] round_even_def)

lemma mul_10000: "mul64 10000 (5534023222112865 / 36893488147419103232) = 6755399441055743 / 4503599627370496"
  by (simp add: mul64_def fl64_eval [where k = "0"] round_even_def)

lemma half_x: "mul64 (1 / 2) 100 = 50"
  by (simp add: mul64_def fl64_eval [where k = "5"] round_even_def)

lemma half_r1: "mul64 (1 / 2) (3602879701896397 / 72057594037927936) = 3602879701896397 / 144115188075855872"
  by (simp add: mul64_def fl64_eval [where k = "- 6"] round_even_def)

lemma half_r2: "add64 (3602879701896397 / 144115188075855872) (1 / 2) = 4728779608739021 / 9007199254740992"
  by (simp add: add64_def fl64_eval [where k = "- 1"] round_even_def)

lemma half_o1: "mul64 (1 / 2) (1 / 2) = 1 / 4"
  by (simp add: mul64_def fl64_eval [where k = "- 2"] round_even_def)

lemma half_o2: "add64 (1 / 4) (1 / 2) = 3 / 4"
  by (simp add: add64_def fl64_eval [where k = "- 1"] round_even_def)

lemma sub_speed: "sub64 1 (1 / 2) = 1 / 2"
  by (simp add: sub64_def fl64_eval [where k = "- 1"] round_even_def)

lemma half_s2: "add64 (1 / 2) (1 / 4) = 3 / 4"
  by (simp add: add64_def fl64_eval [where k = "- 1"] round_even_def)

lemma fl64_top: "fl64 (9007199254740991 / 9007199254740992) = 9007199254740991 / 9007199254740992"
  by (simp add: fl64_eval [where k = "- 1"] round_even_def)

lemma top_x: "mul64 (9007199254740991 / 9007199254740992) 100 = 7036874417766399 / 70368744177664"
  by (simp add: mul64_def fl64_eval [where k = "6"] round_even_def)

lemma top_r1: "mul64 (9007199254740991 / 9007199254740992) (3602879701896397 / 72057594037927936) = 7205759403792793 / 144115188075855872"
  by (simp add: mul64_def fl64_eval [where k = "- 5"] round_even_def)

lemma top_r2: "add64 (7205759403792793 / 144115188075855872) (1 / 2) = 2476979795053773 / 4503599627370496"
  by (simp add: add64_def fl64_eval [where k = "- 1"] round_even_def)

lemma top_o1: "mul64 (9007199254740991 / 9007199254740992) (1 / 2) = 9007199254740991 / 18014398509481984"
  by (simp add: mul64_def fl64_eval [where k = "- 2"] round_even_def)

lemma top_o2: "add64 (9007199254740991 / 18014398509481984) (1 / 2) = 1"
  by (simp add: add64_def fl64_eval [where k = "- 1"] round_even_def)

lemma radius_top: "add64 (3602879701896397 / 72057594037927936) (1 / 2) = 2476979795053773 / 4503599627370496"
  by (simp add: add64_def fl64_eval [where k = "- 1"] round_even_def)

lemma density_config: "starDensity config = 5534023222112865 / 36893488147419103232"
  by (simp add: config_def density_val)

lemma mul64_zero [simp]: "mul64 0 b = 0" "mul64 a 0 = 0"
  by (simp_all add: mul64_def)

text \<open>
  Claim C1, as amended. \<^verbatim>\<open>generateStars\<close> computes \<^verbatim>\<open>Math.floor(area * starDensity)\<close>
  with \<^verbatim>\<open>area = canvas.width * canvas.height\<close>, each product rounded to a double.
  Whenever that rounded product is not negative, the list returned has exactly its floor
  as length, for every density; the list is empty when the width or the height is zero;
  and with the script's density \<^verbatim>\<open>0.00015\<close> a surface of 1000 by 1000 gives exactly 150
  stars.
\<close>

theorem generateStars_count_double:
  "(0 \<le> mul64 (mul64 width height) (starDensity cfg) \<longrightarrow>
      int (length (fst (generateStars cfg width height rnd p)))
      = \<lfloor>mul64 (mul64 width height) (starDensity cfg)\<rfloor>)
   \<and> (width = 0 \<or> height = 0 \<longrightarrow> fst (generateStars cfg width height rnd p) = [])
   \<and> length (fst (generateStars config 1000 1000 rnd p)) = 150"
proof (intro conjI impI)
  assume "0 \<le> mul64 (mul64 width height) (starDensity cfg)"
  then have "0 \<le> \<lfloor>mul64 (mul64 width height) (starDensity cfg)\<rfloor>" by simp
  then show "int (length (fst (generateStars cfg width height rnd p)))
             = \<lfloor>mul64 (mul64 width height) (starDensity cfg)\<rfloor>"
    by (simp add: generateStars_length)
next
  assume "width = 0 \<or> height = 0"
  then have "mul64 (mul64 width height) (starDensity cfg) = 0" by auto
  then have "int (length (fst (generateStars cfg width height rnd p))) = 0"
    by (simp only: generateStars_length floor_zero max.idem)
  then show "fst (generateStars cfg width height rnd p) = []" by simp
next
  have "\<lfloor>mul64 (mul64 1000 1000) (starDensity config)\<rfloor> = 150"
    by (simp add: mul_1000 density_config mul_million)
  then have "int (length (fst (generateStars config 1000 1000 rnd p))) = 150"
    by (simp only: generateStars_length max_def split: if_splits) simp
  then show "length (fst (generateStars config 1000 1000 rnd p)) = 150" by linarith
qed

text \<open>
  Claim C1 as stated, with \<open>floor(width * height * density)\<close> the floor of the exact
  product, fails: on a surface of 200 by 100 the exact product is 3, while the double
  product \<^verbatim>\<open>20000 * 0.00015\<close> is \<open>2.9999999999999996\<close> and the script generates 2 stars.
\<close>

theorem generateStars_count_exact_fails:
  "length (fst (generateStars config 200 100 (math_random env_half) 0)) = 2
   \<and> \<lfloor>(200::real) * 100 * 0.00015\<rfloor> = 3"
proof -
  have "\<lfloor>mul64 (mul64 200 100) (starDensity config)\<rfloor> = 2"
    by (simp add: mul_200 density_config mul_20000)
  then have "int (length (fst (generateStars config 200 100 (math_random env_half) 0))) = 2"
    by (simp only: generateStars_length max_def split: if_splits) simp
  then show ?thesis by simp
qed

theorem generateStars_count_double_witness:
  "0 \<le> mul64 (mul64 200 100) (starDensity config)
   \<and> mul64 (mul64 200 100) (starDensity config) = 6755399441055743 / 2251799813685248
   \<and> int (length (fst (generateStars config 200 100 (math_random env_half) 0))) = 2
   \<and> fst (generateStars config 0 100 (math_random env_half) 0) = []"
  using generateStars_count_double [where width = 200 and height = 100 and cfg = config
      and rnd = "math_random env_half" and p = 0]
    generateStars_count_double [where width = 0 and height = 100 and cfg = config
      and rnd = "math_random env_half" and p = 0]
  by (simp add: mul_200 density_config mul_20000)

lemma fl64_c005: "fl64 (3602879701896397 / 72057594037927936) = 3602879701896397 / 72057594037927936"
  by (simp add: fl64_eval [where k = "- 5"] round_even_def)

lemma fl64_055: "fl64 (11 / 20) = 2476979795053773 / 4503599627370496"
  by (simp add: fl64_eval [where k = "- 1"] round_even_def)

lemma fl64_2048: "fl64 2048 = 2048"
  by (simp add: fl64_eval [where k = "11"] round_even_def)

lemma top_s: "add64 (1 / 2) (9007199254740991 / 18014398509481984) = 1"
  by (simp add: add64_def fl64_eval [where k = "- 1"] round_even_def)

lemma fl64_34: "fl64 (3 / 4) = 3 / 4"
  by (simp add: fl64_eval [where k = "- 1"] round_even_def)

lemma new_star_fields:
  "x (fst (new_star cfg width height rnd q))
     = mul64 (rnd (if allStarsTwinkle cfg then q else q + 1)) width"
  "y (fst (new_star cfg width height rnd q))
     = mul64 (rnd ((if allStarsTwinkle cfg then q else q + 1) + 1)) height"
  "radius (fst (new_star cfg width height rnd q))
     = add64 (mul64 (rnd ((if allStarsTwinkle cfg then q else q + 1) + 2)) (fl64 0.05)) 0.5"
  "opacity (fst (new_star cfg width height rnd q))
     = Num (add64 (mul64 (rnd ((if allStarsTwinkle cfg then q else q + 1) + 3)) 0.5) 0.5)"
  by (simp_all add: new_star_def)

lemma radius_range:
  assumes "0 \<le> r" "r < 1"
  shows "1 / 2 \<le> add64 (mul64 r (fl64 0.05)) 0.5" "add64 (mul64 r (fl64 0.05)) 0.5 \<le> fl64 0.55"
proof -
  let ?c = "3602879701896397 / 72057594037927936 :: real"
  have c: "fl64 0.05 = ?c" by (simp add: c005_val)
  have "0 \<le> r * ?c" using assms(1) by simp
  then have lo: "0 \<le> mul64 r ?c" unfolding mul64_def by (rule fl64_nonneg)
  have "r * ?c \<le> ?c" using assms(2) by simp
  then have "fl64 (r * ?c) \<le> fl64 ?c" by (rule fl64_mono)
  then have hi: "mul64 r ?c \<le> ?c" by (simp add: mul64_def fl64_c005)
  have "fl64 (1 / 2) \<le> fl64 (mul64 r ?c + 1 / 2)" using lo by (intro fl64_mono) simp
  then show "1 / 2 \<le> add64 (mul64 r (fl64 0.05)) 0.5"
    unfolding c by (simp add: add64_def fl64_half)
  have "fl64 (mul64 r ?c + 1 / 2) \<le> fl64 (?c + 1 / 2)" using hi by (intro fl64_mono) simp
  also have "\<dots> = fl64 0.55" using radius_top by (simp add: add64_def fl64_055)
  finally show "add64 (mul64 r (fl64 0.05)) 0.5 \<le> fl64 0.55"
    unfolding c by (simp add: add64_def)
qed

lemma opacity_range:
  assumes "0 \<le> r" "r < 1"
  shows "1 / 2 \<le> add64 (mul64 r 0.5) 0.5" "add64 (mul64 r 0.5) 0.5 \<le> 1"
proof -
  have "0 \<le> r * (1 / 2)" using assms(1) by simp
  then have lo: "0 \<le> mul64 r (1 / 2)" unfolding mul64_def by (rule fl64_nonneg)
  have "r * (1 / 2) \<le> 1 / 2" using assms(2) by simp
  then have "fl64 (r * (1 / 2)) \<le> fl64 (1 / 2)" by (rule fl64_mono)
  then have hi: "mul64 r (1 / 2) \<le> 1 / 2" by (simp add: mul64_def fl64_half)
  have "fl64 (1 / 2) \<le> fl64 (mul64 r (1 / 2) + 1 / 2)" using lo by (intro fl64_mono) simp
  then show "1 / 2 \<le> add64 (mul64 r 0.5) 0.5"
    by (simp add: add64_def fl64_half)
  have "fl64 (mul64 r (1 / 2) + 1 / 2) \<le> fl64 1" using hi by (intro fl64_mono) simp
  then show "add64 (mul64 r 0.5) 0.5 \<le> 1"
    by (simp add: add64_def fl64_one)
qed

lemma coordinate_range:
  assumes "is_double r" "0 \<le> r" "r < 1" "is_double w" "2 powi (- 1021) \<le> w"
  shows "0 \<le> mul64 r w" "mul64 r w < w"
proof -
  have "0 < w" using assms(5) by (rule less_le_trans [rotated]) simp
  then have "0 \<le> r * w" using assms(2) by simp
  then show "0 \<le> mul64 r w" unfolding mul64_def by (rule fl64_nonneg)
  show "mul64 r w < w"
    unfolding mul64_def using assms(4,5,1,2,3) by (rule fl64_product_below)
qed

lemma stars_need_area:
  assumes "is_double width" "is_double height" "0 \<le> width" "0 \<le> height"
    and "fst (generateStars config width height rnd p) \<noteq> []"
  shows "2 powi (- 1021) \<le> width \<and> 2 powi (- 1021) \<le> height"
proof -
  let ?d = "5534023222112865 / 36893488147419103232 :: real"
  define a where "a = mul64 width height"
  have "0 < int (length (fst (generateStars config width height rnd p)))"
    using assms(5) by simp
  then have "0 < max 0 \<lfloor>mul64 a ?d\<rfloor>"
    unfolding generateStars_length density_config a_def .
  then have "1 \<le> \<lfloor>mul64 a ?d\<rfloor>" by linarith
  then have one: "1 \<le> fl64 (a * ?d)" unfolding mul64_def by linarith
  have a: "2048 < a"
  proof (rule ccontr)
    assume "\<not> 2048 < a"
    then have "a * ?d \<le> 1 / 2" by simp
    then have "fl64 (a * ?d) \<le> fl64 (1 / 2)" by (rule fl64_mono)
    then show False using one by (simp add: fl64_half)
  qed
  have wh: "2048 < width * height"
  proof (rule ccontr)
    assume "\<not> 2048 < width * height"
    then have "width * height \<le> 2048" by simp
    then have "fl64 (width * height) \<le> fl64 2048" by (rule fl64_mono)
    then show False using a by (simp add: a_def mul64_def fl64_2048)
  qed
  have bound: "2 powi (- 1021) \<le> v" if "0 \<le> v" "0 \<le> w" "w < 2 ^ 1024" "2048 < v * w" for v w :: real
  proof -
    have "v * w \<le> v * 2 ^ 1024" using that(1,3) by (intro mult_left_mono) simp_all
    then have "2 ^ 11 < v * 2 ^ 1024" using that(4) by simp
    then have "2 ^ 11 / 2 ^ 1024 < v" by (simp add: field_simps)
    moreover have "(2::real) powi (- 1021) \<le> 2 ^ 11 / 2 ^ 1024"
      by (simp add: power_int_minus field_simps)
    ultimately show ?thesis by linarith
  qed
  have h: "height < 2 ^ 1024" "width < 2 ^ 1024"
    using assms(1,2,3,4) by (simp_all add: is_double_def)
  show ?thesis
    using bound [OF assms(3,4) h(1) wh] bound [OF assms(4,3) h(2)] wh
    by (simp add: mult.commute)
qed

text \<open>
  Claim C5, as amended. For draws of \<^verbatim>\<open>Math.random()\<close> that are doubles in \<open>[0, 1)\<close> and a
  width and a height that are non-negative doubles, every star that \<^verbatim>\<open>generateStars\<close>
  returns under the script's settings has its radius in the closed range from 0.5 to the
  double nearest 0.55, an opacity that is a number in the closed range \<open>[0.5, 1]\<close>, and
  coordinates with \<open>0 \<le> x < width\<close> and \<open>0 \<le> y < height\<close>.
\<close>

theorem generateStars_ranges_double:
  assumes "valid_random e" "is_double width" "is_double height" "0 \<le> width" "0 \<le> height"
  shows "\<forall>st \<in> set (fst (generateStars config width height (math_random e) p)).
           1 / 2 \<le> radius st \<and> radius st \<le> fl64 0.55
         \<and> (\<exists>v. opacity st = Num v \<and> 1 / 2 \<le> v \<and> v \<le> 1)
         \<and> 0 \<le> x st \<and> x st < width
         \<and> 0 \<le> y st \<and> y st < height"
proof (cases "fst (generateStars config width height (math_random e) p) = []")
  case True
  then show ?thesis by simp
next
  case False
  then have big: "2 powi (- 1021) \<le> width" "2 powi (- 1021) \<le> height"
    using stars_need_area [OF assms(2,3,4,5)] by simp_all
  have r: "is_double (math_random e n)" "0 \<le> math_random e n" "math_random e n < 1" for n
    using assms(1) by (simp_all add: valid_random_def)
  let ?P = "\<lambda>st. 1 / 2 \<le> radius st \<and> radius st \<le> fl64 0.55
         \<and> (\<exists>v. opacity st = Num v \<and> 1 / 2 \<le> v \<and> v \<le> 1)
         \<and> 0 \<le> x st \<and> x st < width
         \<and> 0 \<le> y st \<and> y st < height"
  have "?P (fst (new_star config width height (math_random e) q))" for q
    unfolding new_star_fields
    using radius_range [OF r(2,3)] opacity_range [OF r(2,3)]
      coordinate_range [OF r assms(2) big(1)] coordinate_range [OF r assms(3) big(2)]
    by simp
  then have "list_all ?P (fst (generate_loop config width height (math_random e)
          \<lfloor>mul64 (mul64 width height) (starDensity config)\<rfloor> 0 [] p))"
    by (intro generate_loop_all) simp_all
  then show ?thesis
    by (simp add: generateStars_def list_all_iff)
qed

lemma generate_one:
  "fst (generateStars config 100 100 rnd p) = [fst (new_star config 100 100 rnd p)]"
proof -
  have f: "\<lfloor>mul64 (mul64 100 100) (starDensity config)\<rfloor> = 1"
    by (simp add: mul_100 density_config mul_10000)
  show ?thesis
    unfolding generateStars_def Let_def f
    by (simp add: generate_loop.simps [of _ _ _ _ _ 0] generate_loop.simps [of _ _ _ _ _ 1]
        split: prod.splits)
qed

lemma is_double_100: "is_double 100"
  by (simp add: is_double_def fl64_100)

lemma valid_random_half: "valid_random env_half"
  by (simp add: valid_random_def env_half_def is_double_def fl64_half)

lemma valid_random_top: "valid_random env_top"
  by (simp add: valid_random_def env_top_def is_double_def fl64_top)

lemma star_half:
  "fst (new_star config 100 100 (math_random env_half)  q)
   = \<lparr>x = 50, y = 50, radius = 4728779608739021 / 9007199254740992, opacity = Num (3 / 4),
       twinkleSpeed = Some (3 / 4)\<rparr>"
  by (simp add: new_star_def config_def env_half_def half_x c005_val half_r1 half_r2
      half_o1 half_o2 sub_speed half_s2)

lemma star_top:
  "fst (new_star config 100 100 (math_random env_top)  q)
   = \<lparr>x = 7036874417766399 / 70368744177664, y = 7036874417766399 / 70368744177664,
       radius = 2476979795053773 / 4503599627370496, opacity = Num 1,
       twinkleSpeed = Some 1\<rparr>"
  by (simp add: new_star_def config_def env_top_def c005_val sub_speed
      top_x top_r1 top_r2 top_o1 top_o2 top_s)

theorem generateStars_ranges_double_witness:
  "valid_random env_half \<and> is_double 100
   \<and> fst (generateStars config 100 100 (math_random env_half) 0)
       = [\<lparr>x = 50, y = 50, radius = 4728779608739021 / 9007199254740992,
           opacity = Num (3 / 4), twinkleSpeed = Some (3 / 4)\<rparr>]
   \<and> 1 / 2 \<le> (4728779608739021 / 9007199254740992 :: real)
   \<and> (4728779608739021 / 9007199254740992 :: real) \<le> fl64 0.55
   \<and> ((0::real) \<le> 50 \<and> (50::real) < 100)"
  using generateStars_ranges_double [OF valid_random_half is_double_100 is_double_100, of 0]
  by (simp add: generate_one star_half valid_random_half is_double_100)

text \<open>
  Claim C5 as stated, with the upper ends of the radius and of the opacity excluded,
  fails: when \<^verbatim>\<open>Math.random()\<close> returns the largest double below 1, which is
  \<open>1 - 2\<^sup>-\<^sup>5\<^sup>3\<close>, the sum \<^verbatim>\<open>Math.random() * 0.05 + 0.5\<close> rounds to the double nearest 0.55,
  which is larger than 0.55, and \<^verbatim>\<open>Math.random() * 0.5 + 0.5\<close> rounds to 1. The
  coordinates stay below the width and the height.
\<close>

theorem generateStars_open_ends_fail:
  "valid_random env_top \<and> is_double 100
   \<and> fst (generateStars config 100 100 (math_random env_top) 0)
       = [\<lparr>x = 7036874417766399 / 70368744177664, y = 7036874417766399 / 70368744177664,
           radius = 2476979795053773 / 4503599627370496, opacity = Num 1,
           twinkleSpeed = Some 1\<rparr>]
   \<and> \<not> (2476979795053773 / 4503599627370496 :: real) < 55 / 100
   \<and> \<not> (1 :: real) < 1"
  by (simp add: generate_one star_top valid_random_top is_double_100)

lemma new_star_speed_closed:
  assumes "allStarsTwinkle cfg" "minTwinkleSpeed cfg = 1 / 2" "maxTwinkleSpeed cfg = 1"
    and "valid_random e"
  shows "\<exists>v. twinkleSpeed (fst (new_star cfg width height (math_random e) q)) = Some v
             \<and> minTwinkleSpeed cfg \<le> v \<and> v \<le> maxTwinkleSpeed cfg"
proof -
  let ?r = "math_random e (q + 4)"
  have r: "0 \<le> ?r" "?r < 1"
    using assms(4) by (simp_all add: valid_random_def)
  have "0 \<le> ?r * (1 / 2)" using r(1) by simp
  then have lo: "0 \<le> mul64 ?r (1 / 2)" unfolding mul64_def by (rule fl64_nonneg)
  have "?r * (1 / 2) \<le> 1 / 2" using r(2) by simp
  then have "fl64 (?r * (1 / 2)) \<le> fl64 (1 / 2)" by (rule fl64_mono)
  then have hi: "mul64 ?r (1 / 2) \<le> 1 / 2" by (simp add: mul64_def fl64_half)
  have "fl64 (1 / 2) \<le> fl64 (1 / 2 + mul64 ?r (1 / 2))" using lo by (intro fl64_mono) simp
  then have a: "1 / 2 \<le> add64 (1 / 2) (mul64 ?r (1 / 2))"
    by (simp add: add64_def fl64_half)
  have "fl64 (1 / 2 + mul64 ?r (1 / 2)) \<le> fl64 1" using hi by (intro fl64_mono) simp
  then have b: "add64 (1 / 2) (mul64 ?r (1 / 2)) \<le> 1"
    by (simp add: add64_def fl64_one)
  have "twinkleSpeed (fst (new_star cfg width height (math_random e) q))
        = Some (add64 (1 / 2) (mul64 ?r (1 / 2)))"
    using assms(1) by (simp add: new_star_def assms(2,3) sub_speed)
  then show ?thesis
    using a b by (simp add: assms(2,3))
qed

text \<open>
  Claim C8, as amended. If \<^verbatim>\<open>allStarsTwinkle\<close> is true and the twinkle speeds are the
  script's, 0.5 and 1, then for draws of \<^verbatim>\<open>Math.random()\<close> that are doubles in \<open>[0, 1)\<close>
  every star that \<^verbatim>\<open>generateStars\<close> returns has a twinkle speed that is not
  \<^verbatim>\<open>null\<close> and lies in the closed range \<open>[minTwinkleSpeed, maxTwinkleSpeed]\<close>.
\<close>

theorem all_twinkle_speed_closed:
  assumes "allStarsTwinkle cfg" "minTwinkleSpeed cfg = 1 / 2" "maxTwinkleSpeed cfg = 1"
    and "valid_random e"
  shows "\<forall>st \<in> set (fst (generateStars cfg width height (math_random e) p)).
           \<exists>v. twinkleSpeed st = Some v \<and> minTwinkleSpeed cfg \<le> v \<and> v \<le> maxTwinkleSpeed cfg"
proof -
  let ?P = "\<lambda>st. \<exists>v. twinkleSpeed st = Some v \<and> minTwinkleSpeed cfg \<le> v \<and> v \<le> maxTwinkleSpeed cfg"
  have "list_all ?P (fst (generate_loop cfg width height (math_random e)
          \<lfloor>mul64 (mul64 width height) (starDensity cfg)\<rfloor> 0 [] p))"
    by (rule generate_loop_all) (use new_star_speed_closed [OF assms] in simp_all)
  then show ?thesis
    by (simp add: generateStars_def list_all_iff)
qed

text \<open>
  Claim C8 as stated, with \<open>maxTwinkleSpeed\<close> excluded, fails: when \<^verbatim>\<open>Math.random()\<close>
  returns the largest double below 1, \<^verbatim>\<open>0.5 + Math.random() * (1 - 0.5)\<close> rounds to 1,
  the maximum.
\<close>

theorem all_twinkle_speed_open_end_fails:
  "allStarsTwinkle config \<and> valid_random env_top
   \<and> twinkleSpeed (hd (fst (generateStars config 100 100 (math_random env_top) 0))) = Some 1
   \<and> maxTwinkleSpeed config = 1
   \<and> \<not> (1 :: real) < maxTwinkleSpeed config"
  by (simp add: generate_one star_top valid_random_top) (simp add: config_def)

theorem all_twinkle_speed_closed_witness:
  "allStarsTwinkle config \<and> minTwinkleSpeed config = 1 / 2 \<and> maxTwinkleSpeed config = 1
   \<and> valid_random env_half
   \<and> twinkleSpeed (hd (fst (generateStars config 100 100 (math_random env_half) 0))) = Some (3 / 4)
   \<and> minTwinkleSpeed config \<le> 3 / 4 \<and> 3 / 4 \<le> maxTwinkleSpeed config"
proof -
  have c: "allStarsTwinkle config" "minTwinkleSpeed config = 1 / 2" "maxTwinkleSpeed config = 1"
    by (simp_all add: config_def)
  show ?thesis
    using all_twinkle_speed_closed [OF c valid_random_half, of 100 100 0] c valid_random_half
    unfolding generate_one star_half
    by (simp add: config_def)
qed

section \<open>Rendering\<close>

lemma render_stars_Cons:
  "render_stars e (st # rest) calls c =
     (let r = render_stars e rest (calls @ draw_star st)
                (case twinkleSpeed st of None \<Rightarrow> c | Some speed \<Rightarrow> c + 1)
      in ((case twinkleSpeed st of
             None \<Rightarrow> st
           | Some speed \<Rightarrow> st\<lparr>opacity := twinkle e (date_now e c) speed\<rparr>) # fst r,
          fst (snd r), snd (snd r)))"
  by (simp add: Let_def split: option.splits prod.splits)

lemma render_stars_calls:
  "fst (snd (render_stars e sts calls c)) = calls @ concat (map draw_star sts)"
  by (induction sts arbitrary: calls c)
     (simp_all add: render_stars_Cons Let_def del: render_stars.simps(2))

lemma render_stars_length:
  "length (fst (render_stars e sts calls c)) = length sts"
  by (induction sts arbitrary: calls c)
     (simp_all add: render_stars_Cons Let_def del: render_stars.simps(2))

lemma render_stars_clock:
  "snd (snd (render_stars e sts calls c)) = c + reads_before sts (length sts)"
  by (induction sts arbitrary: calls c)
     (simp_all add: render_stars_Cons Let_def reads_before_def del: render_stars.simps(2)
        split: option.splits)

lemma render_stars_nth:
  "i < length sts \<Longrightarrow>
   fst (render_stars e sts calls c) ! i =
     (case twinkleSpeed (sts ! i) of
        None \<Rightarrow> sts ! i
      | Some speed \<Rightarrow> (sts ! i)\<lparr>opacity := twinkle e (date_now e (c + reads_before sts i)) speed\<rparr>)"
proof (induction sts arbitrary: calls c i)
  case Nil
  then show ?case by simp
next
  case (Cons st rest)
  show ?case
  proof (cases i)
    case 0
    then show ?thesis
      by (simp add: render_stars_Cons Let_def reads_before_def del: render_stars.simps(2)
          split: option.splits)
  next
    case (Suc j)
    then have j: "j < length rest" using Cons.prems by simp
    show ?thesis
      using Cons.IH [OF j] Suc
      by (simp add: render_stars_Cons Let_def reads_before_def del: render_stars.simps(2)
          split: option.splits)
  qed
qed

lemma render_fields:
  "stars (render e s) = fst (render_stars e (stars s)
      (ctx_calls s @ [ClearRect 0 0 (real (canvas_width s)) (real (canvas_height s))]) (clock_used s))"
  "ctx_calls (render e s) = fst (snd (render_stars e (stars s)
      (ctx_calls s @ [ClearRect 0 0 (real (canvas_width s)) (real (canvas_height s))]) (clock_used s)))"
  "clock_used (render e s) = snd (snd (render_stars e (stars s)
      (ctx_calls s @ [ClearRect 0 0 (real (canvas_width s)) (real (canvas_height s))]) (clock_used s)))"
  "frame_callbacks (render e s) = frame_callbacks s @ [frame_counter s + 1]"
  "frame_counter (render e s) = frame_counter s + 1"
  "animationFrameId (render e s) = Some (frame_counter s + 1)"
  "canvas_width (render e s) = canvas_width s"
  "canvas_height (render e s) = canvas_height s"
  "random_used (render e s) = random_used s"
  "cancel_calls (render e s) = cancel_calls s"
  "observing (render e s) = observing s"
  by (simp_all add: render_def requestAnimationFrame_def Let_def split: prod.splits)

lemma concat_draw_nth:
  "i < length sts \<Longrightarrow>
   concat (map draw_star sts) ! (4 * i + 2) = FillStyle 255 255 255 (opacity (sts ! i))"
proof (induction sts arbitrary: i)
  case Nil
  then show ?case by simp
next
  case (Cons st rest)
  show ?case
  proof (cases i)
    case 0
    then show ?thesis by (simp add: draw_star_def)
  next
    case (Suc j)
    then have j: "j < length rest" using Cons.prems by simp
    have "4 * i + 2 = 4 + (4 * j + 2)" using Suc by simp
    then have "concat (map draw_star (st # rest)) ! (4 * i + 2)
               = concat (map draw_star rest) ! (4 * j + 2)"
      by (simp add: draw_star_def nth_append del: nth_Cons_numeral)
    then show ?thesis using Cons.IH [OF j] Suc by simp
  qed
qed

lemma concat_draw_length: "length (concat (map draw_star sts)) = 4 * length sts"
  by (induction sts) (simp_all add: draw_star_def)

lemma render_calls:
  "ctx_calls (render e s)
   = ctx_calls s @ ClearRect 0 0 (real (canvas_width s)) (real (canvas_height s))
       # concat (map draw_star (stars s))"
  by (simp add: render_fields(2) render_stars_calls)

lemma render_fill_style:
  assumes "i < length (stars s)"
  shows "ctx_calls (render e s) ! (length (ctx_calls s) + 1 + (4 * i + 2))
         = FillStyle 255 255 255 (opacity (stars s ! i))"
proof -
  have "(ctx_calls s @ ClearRect 0 0 (real (canvas_width s)) (real (canvas_height s))
          # concat (map draw_star (stars s))) ! (length (ctx_calls s) + 1 + (4 * i + 2))
        = concat (map draw_star (stars s)) ! (4 * i + 2)"
    by (simp add: nth_append)
  then show ?thesis
    using concat_draw_nth [OF assms] by (simp only: render_calls)
qed

lemma render_star_nth:
  assumes "i < length (stars s)"
  shows "stars (render e s) ! i =
     (case twinkleSpeed (stars s ! i) of
        None \<Rightarrow> stars s ! i
      | Some v \<Rightarrow> (stars s ! i)\<lparr>opacity :=
          twinkle e (date_now e (clock_used s + reads_before (stars s) i)) v\<rparr>)"
  using assms by (simp add: render_fields(1) render_stars_nth)

text \<open>
  Claim C7. One invocation of \<^verbatim>\<open>render\<close> appends to the drawing calls the
  \<^verbatim>\<open>clearRect\<close> and then, star by star in order, a path whose fill style carries the
  opacity the star had before the invocation. The collection keeps its length, and for
  the star at every index: the fill style this invocation sets for it is the opacity it
  had before; after the invocation the star is the one it was, with, if it twinkles, its
  opacity replaced by the value computed from the clock read for it; and the fill style
  the next invocation sets for it is exactly that value. What a frame displays for a
  twinkling star is what the frame before computed.
\<close>

theorem render_draws_then_updates:
  "ctx_calls (render e s)
     = ctx_calls s
       @ ClearRect 0 0 (real (canvas_width s)) (real (canvas_height s))
         # concat (map (\<lambda>st. [BeginPath, Arc (x st) (y st) (radius st) 0 (mul64 (fl64 pi) 2),
                                FillStyle 255 255 255 (opacity st), Fill]) (stars s))
   \<and> length (stars (render e s)) = length (stars s)
   \<and> (\<forall>i < length (stars s).
         ctx_calls (render e s) ! (length (ctx_calls s) + 1 + (4 * i + 2))
           = FillStyle 255 255 255 (opacity (stars s ! i))
       \<and> stars (render e s) ! i =
           (case twinkleSpeed (stars s ! i) of
              None \<Rightarrow> stars s ! i
            | Some v \<Rightarrow> (stars s ! i)\<lparr>opacity :=
                twinkle e (date_now e (clock_used s + reads_before (stars s) i)) v\<rparr>)
       \<and> ctx_calls (render e (render e s)) ! (length (ctx_calls (render e s)) + 1 + (4 * i + 2))
           = FillStyle 255 255 255
               (case twinkleSpeed (stars s ! i) of
                  None \<Rightarrow> opacity (stars s ! i)
                | Some v \<Rightarrow> twinkle e (date_now e (clock_used s + reads_before (stars s) i)) v))"
proof -
  have d: "draw_star = (\<lambda>st. [BeginPath, Arc (x st) (y st) (radius st) 0 (mul64 (fl64 pi) 2),
                                FillStyle 255 255 255 (opacity st), Fill])"
    by (rule ext) (simp add: draw_star_def)
  have len: "length (stars (render e s)) = length (stars s)"
    by (simp add: render_fields(1) render_stars_length)
  have next_frame: "ctx_calls (render e (render e s)) ! (length (ctx_calls (render e s)) + 1 + (4 * i + 2))
           = FillStyle 255 255 255
               (case twinkleSpeed (stars s ! i) of
                  None \<Rightarrow> opacity (stars s ! i)
                | Some v \<Rightarrow> twinkle e (date_now e (clock_used s + reads_before (stars s) i)) v)"
    if "i < length (stars s)" for i
  proof -
    have "i < length (stars (render e s))" using that len by simp
    then have "ctx_calls (render e (render e s)) ! (length (ctx_calls (render e s)) + 1 + (4 * i + 2))
               = FillStyle 255 255 255 (opacity (stars (render e s) ! i))"
      by (rule render_fill_style)
    then show ?thesis
      unfolding render_star_nth [OF that] by (simp split: option.splits)
  qed
  show ?thesis
    using render_calls [of e s] len render_fill_style [of _ s e] render_star_nth [of _ s e] next_frame
    unfolding d by simp
qed

lemma render_keeps:
  "length (stars (render e s)) = length (stars s)"
  "i < length (stars s) \<Longrightarrow> x (stars (render e s) ! i) = x (stars s ! i)"
  "i < length (stars s) \<Longrightarrow> y (stars (render e s) ! i) = y (stars s ! i)"
  "i < length (stars s) \<Longrightarrow> radius (stars (render e s) ! i) = radius (stars s ! i)"
  "i < length (stars s) \<Longrightarrow> twinkleSpeed (stars (render e s) ! i) = twinkleSpeed (stars s ! i)"
  "i < length (stars s) \<Longrightarrow> twinkleSpeed (stars s ! i) = None \<Longrightarrow>
     opacity (stars (render e s) ! i) = opacity (stars s ! i)"
  by (simp_all add: render_fields(1) render_stars_length render_stars_nth split: option.splits)

text \<open>
  Claim C10. Any number \<open>n\<close> of invocations of \<^verbatim>\<open>render\<close> (one, for \<open>n = 1\<close>) leaves
  the length of the star collection and every star's \<open>x\<close>, \<open>y\<close>, \<open>radius\<close> and
  \<open>twinkleSpeed\<close> as they were, and leaves the opacity of a star whose twinkle speed is
  \<^verbatim>\<open>null\<close> as it was.
\<close>

theorem render_only_twinkles:
  "length (stars ((render e ^^ n) s)) = length (stars s)
   \<and> (\<forall>i < length (stars s).
         x (stars ((render e ^^ n) s) ! i) = x (stars s ! i)
       \<and> y (stars ((render e ^^ n) s) ! i) = y (stars s ! i)
       \<and> radius (stars ((render e ^^ n) s) ! i) = radius (stars s ! i)
       \<and> twinkleSpeed (stars ((render e ^^ n) s) ! i) = twinkleSpeed (stars s ! i)
       \<and> (twinkleSpeed (stars s ! i) = None \<longrightarrow>
            opacity (stars ((render e ^^ n) s) ! i) = opacity (stars s ! i)))"
proof (induction n)
  case 0
  show ?case by simp
next
  case (Suc n)
  then show ?case by (simp add: render_keeps)
qed

theorem render_draws_then_updates_witness:
  "0 < length (stars two_stars)
   \<and> ctx_calls (render env_half two_stars) ! 3 = FillStyle 255 255 255 (Num (3 / 4))
   \<and> opacity (stars (render env_half two_stars) ! 0) = twinkle env_half 1000 (3 / 4)
   \<and> ctx_calls (render env_half (render env_half two_stars)) ! 12
       = FillStyle 255 255 255 (twinkle env_half 1000 (3 / 4))"
proof -
  note t = render_draws_then_updates [where e = env_half and s = two_stars]
  have t0: "0 < length (stars two_stars)" by (simp add: two_stars_def)
  have a: "stars two_stars ! 0
           = \<lparr>x = 50, y = 50, radius = 17 / 32, opacity = Num (3 / 4), twinkleSpeed = Some (3 / 4)\<rparr>"
    by (simp add: two_stars_def)
  have c: "length (ctx_calls two_stars) = 0" "clock_used two_stars = 0"
    by (simp_all add: two_stars_def initial_def)
  have l: "length (ctx_calls (render env_half two_stars)) = 9"
    unfolding conjunct1 [OF t] by (simp add: two_stars_def initial_def)
  have d: "date_now env_half 0 = 1000" by (simp add: env_half_def)
  show ?thesis
    using conjunct2 [OF conjunct2 [OF t], rule_format, OF t0] t0
    by (simp add: a c l d reads_before_def numeral_3_eq_3)
qed

theorem render_only_twinkles_witness:
  "length (stars ((render env_half ^^ 2) two_stars)) = 2
   \<and> twinkleSpeed (stars two_stars ! 1) = None
   \<and> opacity (stars ((render env_half ^^ 2) two_stars) ! 1) = Num (5 / 8)
   \<and> x (stars ((render env_half ^^ 2) two_stars) ! 0) = 50
   \<and> twinkleSpeed (stars ((render env_half ^^ 2) two_stars) ! 0) = Some (3 / 4)"
proof -
  have l: "length (stars two_stars) = 2" by (simp add: two_stars_def)
  have a: "stars two_stars ! Suc 0 = \<lparr>x = 10, y = 20, radius = 1 / 2, opacity = Num (5 / 8), twinkleSpeed = None\<rparr>"
    and b: "stars two_stars ! 0 = \<lparr>x = 50, y = 50, radius = 17 / 32, opacity = Num (3 / 4), twinkleSpeed = Some (3 / 4)\<rparr>"
    by (simp_all add: two_stars_def)
  note t = render_only_twinkles [where e = env_half and n = 2 and s = two_stars]
  have t0: "0 < length (stars two_stars)" and t1: "1 < length (stars two_stars)"
    by (simp_all add: l)
  show ?thesis
    using conjunct1 [OF t] conjunct2 [OF t, rule_format, OF t0] conjunct2 [OF t, rule_format, OF t1]
    by (simp add: l a b)
qed

section \<open>The render loop\<close>

text \<open>
  Claim C4. When the observed width or height is zero, \<^verbatim>\<open>updateStars\<close> returns
  the state it was given: the stars, the bitmap size, the frame callbacks, the drawing
  calls and the draws consumed are all as before.
\<close>

theorem updateStars_hidden:
  "width = 0 \<or> height = 0 \<Longrightarrow> updateStars cfg e width height s = s"
  by (simp add: updateStars_def)

theorem updateStars_hidden_witness:
  "updateStars config env_half 0 100 initial = initial"
  using updateStars_hidden [of 0 100 config env_half initial] by simp

lemma updateStars_zero:
  "width = 0 \<or> height = 0 \<Longrightarrow> updateStars cfg e width height s = s"
  by (simp add: updateStars_def)

lemma updateStars_env:
  "cancel_calls (updateStars cfg e width height s) = cancel_calls s"
  "observing (updateStars cfg e width height s) = observing s"
  by (simp_all add: updateStars_def Let_def render_fields split: prod.splits)

lemma updateStars_start:
  assumes "width \<noteq> 0" "height \<noteq> 0" "falsy (animationFrameId s)"
  shows "frame_callbacks (updateStars cfg e width height s) = frame_callbacks s @ [frame_counter s + 1]"
    and "animationFrameId (updateStars cfg e width height s) = Some (frame_counter s + 1)"
    and "stars (updateStars cfg e width height s)
           = fst (render_stars e
                   (fst (generateStars cfg width height (math_random e) (random_used s)))
                   (ctx_calls s @ [ClearRect 0 0 (real (to_dimension width 300)) (real (to_dimension height 150))])
                   (clock_used s))"
  using assms by (simp_all add: updateStars_def Let_def render_fields split: prod.splits)

lemma updateStars_running:
  assumes "width \<noteq> 0" "height \<noteq> 0" "\<not> falsy (animationFrameId s)"
  shows "frame_callbacks (updateStars cfg e width height s) = frame_callbacks s"
    and "animationFrameId (updateStars cfg e width height s) = animationFrameId s"
    and "ctx_calls (updateStars cfg e width height s) = ctx_calls s"
    and "stars (updateStars cfg e width height s)
           = fst (generateStars cfg width height (math_random e) (random_used s))"
  using assms by (simp_all add: updateStars_def Let_def split: prod.splits)

lemma run_frame_one:
  "frame_callbacks s = [h] \<Longrightarrow>
   frame_callbacks (run_frame e s) = [frame_counter s + 1]
   \<and> animationFrameId (run_frame e s) = Some (frame_counter s + 1)
   \<and> cancel_calls (run_frame e s) = cancel_calls s
   \<and> observing (run_frame e s) = observing s"
  by (simp add: run_frame_def render_fields)

lemma loop_inv_falsy:
  "loop_inv s \<Longrightarrow> falsy (animationFrameId s) = (frame_callbacks s = [])"
  by (auto simp: loop_inv_def falsy_def split: option.splits)

lemma loop_inv_updateStars:
  assumes "loop_inv s"
  shows "loop_inv (updateStars cfg e width height s)"
proof (cases "width = 0 \<or> height = 0")
  case True
  then show ?thesis using assms by (simp add: updateStars_zero)
next
  case False
  then have nz: "width \<noteq> 0" "height \<noteq> 0" by simp_all
  show ?thesis
  proof (cases "falsy (animationFrameId s)")
    case True
    then have "frame_callbacks s = []" using assms by (simp add: loop_inv_falsy)
    then show ?thesis
      using assms updateStars_start(1,2) [OF nz True, of cfg e]
      by (simp add: loop_inv_def updateStars_env)
  next
    case False
    then show ?thesis
      using assms updateStars_running(1,2) [OF nz False, of cfg e]
      by (auto simp: loop_inv_def updateStars_env split: option.splits)
  qed
qed

lemma loop_inv_fire:
  assumes "loop_inv s" "ev \<noteq> Unload"
  shows "loop_inv (fire cfg e ev s)"
proof (cases ev)
  case (Resize width height)
  then show ?thesis using assms(1) by (simp add: fire_def loop_inv_updateStars)
next
  case Frame
  show ?thesis
  proof (cases "frame_callbacks s = []")
    case True
    then show ?thesis using assms(1) Frame by (simp add: fire_def)
  next
    case False
    then obtain h where h: "frame_callbacks s = [h]"
      using assms(1) by (auto simp: loop_inv_def split: option.splits)
    show ?thesis
      using run_frame_one [OF h, of e] assms(1) Frame h
      by (simp add: fire_def loop_inv_def)
  qed
next
  case Unload
  then show ?thesis using assms(2) by simp
qed

lemma run_Nil: "run cfg e s [] = s"
  by (simp add: run_def)

lemma run_Cons: "run cfg e s (ev # evs) = run cfg e (fire cfg e ev s) evs"
  by (simp add: run_def)

lemma run_append: "run cfg e s (evs @ evs') = run cfg e (run cfg e s evs) evs'"
  by (simp add: run_def)

lemma loop_inv_run:
  "loop_inv s \<Longrightarrow> Unload \<notin> set evs \<Longrightarrow> loop_inv (run cfg e s evs)"
proof (induction evs arbitrary: s)
  case Nil
  then show ?case by (simp add: run_Nil)
next
  case (Cons ev evs)
  then have u: "ev \<noteq> Unload" "Unload \<notin> set evs" by auto
  have "loop_inv (fire cfg e ev s)" using Cons.prems(1) u(1) by (rule loop_inv_fire)
  from Cons.IH [OF this u(2)] show ?case by (simp add: run_Cons)
qed

lemma loop_inv_initial: "loop_inv (initial\<lparr>observing := True\<rparr>)"
  by (simp add: loop_inv_def initial_def)

lemma boot_alt:
  "boot cfg e width height = updateStars cfg e width height (initial\<lparr>observing := True\<rparr>)"
  by (simp add: boot_def updateStars_def Let_def render_def requestAnimationFrame_def
      split: prod.splits)

lemma loop_inv_boot: "loop_inv (boot cfg e width height)"
  by (simp add: boot_alt loop_inv_updateStars loop_inv_initial)

lemma animating_updateStars:
  assumes "loop_inv s"
  shows "animating (updateStars cfg e width height s) \<longleftrightarrow> animating s \<or> (width \<noteq> 0 \<and> height \<noteq> 0)"
proof (cases "width = 0 \<or> height = 0")
  case True
  then show ?thesis by (auto simp: updateStars_zero)
next
  case False
  then have nz: "width \<noteq> 0" "height \<noteq> 0" by simp_all
  show ?thesis
  proof (cases "falsy (animationFrameId s)")
    case True
    then show ?thesis
      using nz updateStars_start(1) [OF nz True, of cfg e] by (simp add: animating_def)
  next
    case False
    then have "frame_callbacks s \<noteq> []" using assms by (simp add: loop_inv_falsy)
    then show ?thesis
      using nz updateStars_running(1) [OF nz False, of cfg e] by (simp add: animating_def)
  qed
qed

lemma animating_fire:
  assumes "loop_inv s" "ev \<noteq> Unload"
  shows "animating (fire cfg e ev s) \<longleftrightarrow> animating s \<or> nonzero ev"
proof (cases ev)
  case (Resize width height)
  then show ?thesis
    using assms(1) animating_updateStars [OF assms(1), of cfg e width height]
    by (simp add: fire_def nonzero_def loop_inv_def)
next
  case Frame
  show ?thesis
  proof (cases "frame_callbacks s = []")
    case True
    then show ?thesis using Frame by (simp add: fire_def nonzero_def)
  next
    case False
    then obtain h where h: "frame_callbacks s = [h]"
      using assms(1) by (auto simp: loop_inv_def split: option.splits)
    show ?thesis
      using run_frame_one [OF h, of e] Frame h
      by (simp add: fire_def animating_def nonzero_def)
  qed
next
  case Unload
  then show ?thesis using assms(2) by simp
qed

lemma animating_run:
  "loop_inv s \<Longrightarrow> Unload \<notin> set evs \<Longrightarrow>
   animating (run cfg e s evs) \<longleftrightarrow> animating s \<or> (\<exists>ev \<in> set evs. nonzero ev)"
proof (induction evs arbitrary: s)
  case Nil
  then show ?case by (simp add: run_Nil)
next
  case (Cons ev evs)
  then have u: "ev \<noteq> Unload" "Unload \<notin> set evs" by auto
  have "loop_inv (fire cfg e ev s)" using Cons.prems(1) u(1) by (rule loop_inv_fire)
  from Cons.IH [OF this u(2)] animating_fire [OF Cons.prems(1) u(1), of cfg e]
  show ?case by (auto simp: run_Cons)
qed

lemma animating_boot:
  "animating (boot cfg e width height) \<longleftrightarrow> width \<noteq> 0 \<and> height \<noteq> 0"
  using animating_updateStars [OF loop_inv_initial, of cfg e width height]
  by (simp add: boot_alt animating_def initial_def)

lemma updateStars_start_counter:
  assumes "width \<noteq> 0" "height \<noteq> 0" "falsy (animationFrameId s)"
  shows "frame_counter (updateStars cfg e width height s) = frame_counter s + 1"
  using assms by (simp add: updateStars_def Let_def render_fields split: prod.splits)

lemma starts_count:
  "loop_inv s \<Longrightarrow> Unload \<notin> set evs \<Longrightarrow>
   starts cfg e s evs = (if \<not> animating s \<and> (\<exists>ev \<in> set evs. nonzero ev) then 1 else 0)"
proof (induction evs arbitrary: s)
  case Nil
  then show ?case by simp
next
  case (Cons ev evs)
  then have u: "ev \<noteq> Unload" "Unload \<notin> set evs" by auto
  have i: "loop_inv (fire cfg e ev s)" using Cons.prems(1) u(1) by (rule loop_inv_fire)
  from Cons.IH [OF i u(2)] animating_fire [OF Cons.prems(1) u(1), of cfg e]
  show ?case by auto
qed

text \<open>
  Claim C3. Take the page from \<^verbatim>\<open>DOMContentLoaded\<close> (whose first call of
  \<^verbatim>\<open>updateStars\<close> observes \<open>width\<close> by \<open>height\<close>) through any sequence \<open>evs\<close> of resize
  notifications and frames, with no unload. At the end of the sequence, and so at
  every point of it, the component is Animating exactly if some invocation of
  \<^verbatim>\<open>updateStars\<close> so far has observed a width and a height that are both not zero:
  it leaves Idle at the first such invocation and does not come back. Along the
  sequence the number of transitions from Idle to Animating is one if there is such an
  invocation and zero otherwise; at most one frame callback is ever waiting; an
  invocation with non-zero dimensions while Animating replaces the star collection by
  the result of \<^verbatim>\<open>generateStars\<close> and neither queues a callback nor draws; and no
  event other than the unload takes the component out of Animating.
\<close>

theorem single_render_loop:
  fixes cfg e width height evs
  defines "s \<equiv> run cfg e (boot cfg e width height) evs"
  assumes "Unload \<notin> set evs"
  shows "(animating s \<longleftrightarrow> (width \<noteq> 0 \<and> height \<noteq> 0) \<or> (\<exists>ev \<in> set evs. nonzero ev))
       \<and> (if animating (boot cfg e width height) then 1 else 0)
           + starts cfg e (boot cfg e width height) evs
         = (if (width \<noteq> 0 \<and> height \<noteq> 0) \<or> (\<exists>ev \<in> set evs. nonzero ev) then 1 else 0)
       \<and> length (frame_callbacks s) \<le> 1
       \<and> (animating s \<and> w \<noteq> 0 \<and> h \<noteq> 0 \<longrightarrow>
            stars (fire cfg e (Resize w h) s)
              = fst (generateStars cfg w h (math_random e) (random_used s))
          \<and> frame_callbacks (fire cfg e (Resize w h) s) = frame_callbacks s
          \<and> animationFrameId (fire cfg e (Resize w h) s) = animationFrameId s
          \<and> ctx_calls (fire cfg e (Resize w h) s) = ctx_calls s)
       \<and> (animating s \<and> ev' \<noteq> Unload \<longrightarrow> animating (fire cfg e ev' s))"
proof -
  have inv: "loop_inv s"
    unfolding s_def using loop_inv_boot assms(2) by (rule loop_inv_run)
  have a: "animating s \<longleftrightarrow> (width \<noteq> 0 \<and> height \<noteq> 0) \<or> (\<exists>ev \<in> set evs. nonzero ev)"
    unfolding s_def using animating_run [OF loop_inv_boot assms(2)] animating_boot by simp
  have n: "(if animating (boot cfg e width height) then 1 else 0)
           + starts cfg e (boot cfg e width height) evs
         = (if (width \<noteq> 0 \<and> height \<noteq> 0) \<or> (\<exists>ev \<in> set evs. nonzero ev) then 1 else 0)"
    using starts_count [OF loop_inv_boot assms(2), where cfg = cfg and e = e]
    by (simp add: animating_boot)
  have b: "length (frame_callbacks s) \<le> 1"
    using inv by (auto simp: loop_inv_def split: option.splits)
  have c: "stars (fire cfg e (Resize w h) s)
              = fst (generateStars cfg w h (math_random e) (random_used s))
          \<and> frame_callbacks (fire cfg e (Resize w h) s) = frame_callbacks s
          \<and> animationFrameId (fire cfg e (Resize w h) s) = animationFrameId s
          \<and> ctx_calls (fire cfg e (Resize w h) s) = ctx_calls s"
    if "animating s" "w \<noteq> 0" "h \<noteq> 0"
  proof -
    have "\<not> falsy (animationFrameId s)"
      using that(1) inv by (simp add: loop_inv_falsy animating_def)
    from updateStars_running [OF that(2,3) this, of cfg e] inv show ?thesis
      by (simp add: fire_def loop_inv_def)
  qed
  have d: "animating (fire cfg e ev' s)" if "animating s" "ev' \<noteq> Unload"
    using animating_fire [OF inv that(2), of cfg e] that(1) by simp
  show ?thesis using a n b c d by blast
qed

theorem single_render_loop_witness:
  "Unload \<notin> set [Resize 0 0, Frame, Resize 100 100, Frame, Resize 200 100]
   \<and> animating (run config env_half (boot config env_half 0 0)
        [Resize 0 0, Frame, Resize 100 100, Frame, Resize 200 100])
   \<and> (if animating (boot config env_half 0 0) then 1 else 0)
       + starts config env_half (boot config env_half 0 0)
           [Resize 0 0, Frame, Resize 100 100, Frame, Resize 200 100] = (1::nat)
   \<and> length (frame_callbacks (run config env_half (boot config env_half 0 0)
        [Resize 0 0, Frame, Resize 100 100, Frame, Resize 200 100])) \<le> 1
   \<and> frame_callbacks (fire config env_half (Resize 300 200)
        (run config env_half (boot config env_half 0 0)
          [Resize 0 0, Frame, Resize 100 100, Frame, Resize 200 100]))
      = frame_callbacks (run config env_half (boot config env_half 0 0)
          [Resize 0 0, Frame, Resize 100 100, Frame, Resize 200 100])
   \<and> animating (fire config env_half Frame
        (run config env_half (boot config env_half 0 0)
          [Resize 0 0, Frame, Resize 100 100, Frame, Resize 200 100]))"
proof -
  have u: "Unload \<notin> set [Resize 0 0, Frame, Resize 100 100, Frame, Resize 200 100]"
    by simp
  have z: "(\<exists>ev \<in> set [Resize 0 0, Frame, Resize 100 100, Frame, Resize 200 100]. nonzero ev) = True"
    by (simp add: nonzero_def)
  show ?thesis
    using single_render_loop [OF u, where cfg = config and e = env_half and width = 0
        and height = 0 and w = 300 and h = 200 and ev' = Frame] u
    unfolding z by simp
qed

section \<open>Teardown\<close>

lemma beforeunload_fields:
  "frame_callbacks (beforeunload s)
     = filter (\<lambda>k. k \<noteq> (case animationFrameId s of None \<Rightarrow> 0 | Some h \<Rightarrow> h)) (frame_callbacks s)"
  "cancel_calls (beforeunload s)
     = cancel_calls s @ [case animationFrameId s of None \<Rightarrow> 0 | Some h \<Rightarrow> h]"
  "observing (beforeunload s) = False"
  "stars (beforeunload s) = stars s"
  "ctx_calls (beforeunload s) = ctx_calls s"
  by (simp_all add: beforeunload_def cancelAnimationFrame_def Let_def)

lemma stopped_fire:
  assumes "stopped s"
  shows "stopped (fire cfg e ev s) \<and> stars (fire cfg e ev s) = stars s
         \<and> ctx_calls (fire cfg e ev s) = ctx_calls s"
  using assms by (cases ev) (simp_all add: fire_def stopped_def beforeunload_fields)

lemma stopped_run:
  "stopped s \<Longrightarrow>
   stopped (run cfg e s evs) \<and> stars (run cfg e s evs) = stars s
   \<and> ctx_calls (run cfg e s evs) = ctx_calls s"
proof (induction evs arbitrary: s)
  case Nil
  then show ?case by (simp add: run_Nil)
next
  case (Cons ev evs)
  from stopped_fire [OF Cons.prems, of cfg e ev] Cons.IH [of "fire cfg e ev s"]
  show ?case by (simp add: run_Cons)
qed

lemma stopped_delivers:
  "stopped s \<Longrightarrow> ev \<noteq> Unload \<Longrightarrow> \<not> delivers ev s"
  by (cases ev) (simp_all add: stopped_def)

text \<open>
  Claim C9. Let the unload notification fire when the component is Animating (after
  any sequence \<open>evs\<close> of resize notifications and frames). Then
  \<^verbatim>\<open>cancelAnimationFrame\<close> has been called exactly once since the page loaded, with the
  handle of the one callback that was waiting; no callback is waiting afterwards and
  the canvas is no longer observed; and whatever events follow, neither a frame nor a
  resize notification is delivered again, so \<^verbatim>\<open>render\<close> and \<^verbatim>\<open>updateStars\<close> are
  never invoked again: the drawing calls and the star collection stay as they are.
\<close>

theorem teardown_stops:
  fixes cfg e width height evs
  defines "s \<equiv> run cfg e (boot cfg e width height) evs"
  defines "s' \<equiv> fire cfg e Unload s"
  assumes "Unload \<notin> set evs" "animating s"
  shows "(\<exists>h. frame_callbacks s = [h] \<and> cancel_calls s' = [h])
       \<and> frame_callbacks s' = [] \<and> \<not> observing s'
       \<and> (\<forall>evs' ev. ev \<noteq> Unload \<longrightarrow> \<not> delivers ev (run cfg e s' evs'))
       \<and> (\<forall>evs'. ctx_calls (run cfg e s' evs') = ctx_calls s'
                  \<and> stars (run cfg e s' evs') = stars s')"
proof -
  have inv: "loop_inv s"
    unfolding s_def using loop_inv_boot assms(3) by (rule loop_inv_run)
  from assms(4) inv obtain h where h: "animationFrameId s = Some h" "frame_callbacks s = [h]"
    by (auto simp: animating_def loop_inv_def split: option.splits)
  have s': "s' = beforeunload s" by (simp add: s'_def fire_def)
  have c: "cancel_calls s' = [h]"
    using inv h by (simp add: s' beforeunload_fields loop_inv_def)
  have f: "frame_callbacks s' = []" "\<not> observing s'"
    using h by (simp_all add: s' beforeunload_fields)
  then have st: "stopped s'" by (simp add: stopped_def)
  have d: "\<not> delivers ev (run cfg e s' evs')" if "ev \<noteq> Unload" for evs' ev
    using stopped_run [OF st, of cfg e evs'] that by (simp add: stopped_delivers)
  show ?thesis
    using h(2) c f d stopped_run [OF st, of cfg e] by blast
qed

lemma run_boot_frame:
  "frame_callbacks (run config env_half (boot config env_half 100 100) [Frame]) = [2]"
proof -
  have f: "falsy (animationFrameId (initial\<lparr>observing := True\<rparr>))"
    by (simp add: falsy_def initial_def)
  have nz: "(100::real) \<noteq> 0" by simp
  have b: "frame_callbacks (boot config env_half 100 100) = [1]"
    and c: "frame_counter (boot config env_half 100 100) = 1"
    unfolding boot_alt
    using updateStars_start(1) [OF nz nz f, of config env_half]
      updateStars_start_counter [OF nz nz f, of config env_half]
    by (simp_all add: initial_def)
  show ?thesis
    using run_frame_one [OF b, of env_half] b c
    by (simp add: run_Cons run_Nil fire_def)
qed

theorem teardown_stops_witness:
  "Unload \<notin> set [Frame]
   \<and> animating (run config env_half (boot config env_half 100 100) [Frame])
   \<and> frame_callbacks (run config env_half (boot config env_half 100 100) [Frame]) = [2]
   \<and> cancel_calls (fire config env_half Unload
        (run config env_half (boot config env_half 100 100) [Frame])) = [2]
   \<and> frame_callbacks (fire config env_half Unload
        (run config env_half (boot config env_half 100 100) [Frame])) = []
   \<and> \<not> observing (fire config env_half Unload
        (run config env_half (boot config env_half 100 100) [Frame]))
   \<and> \<not> delivers Frame (run config env_half (fire config env_half Unload
        (run config env_half (boot config env_half 100 100) [Frame])) [Frame, Unload, Resize 5 5])
   \<and> \<not> delivers (Resize 7 7) (run config env_half (fire config env_half Unload
        (run config env_half (boot config env_half 100 100) [Frame])) [Frame, Unload, Resize 5 5])
   \<and> ctx_calls (run config env_half (fire config env_half Unload
        (run config env_half (boot config env_half 100 100) [Frame])) [Frame, Unload, Resize 5 5])
      = ctx_calls (fire config env_half Unload
        (run config env_half (boot config env_half 100 100) [Frame]))"
proof -
  have u: "Unload \<notin> set [Frame]" by simp
  have a: "animating (run config env_half (boot config env_half 100 100) [Frame])"
    by (simp add: animating_def run_boot_frame)
  note t = teardown_stops [OF u a]
  have c: "cancel_calls (fire config env_half Unload
        (run config env_half (boot config env_half 100 100) [Frame])) = [2]"
    using conjunct1 [OF t] by (auto simp: run_boot_frame)
  have d: "\<not> delivers ev (run config env_half (fire config env_half Unload
        (run config env_half (boot config env_half 100 100) [Frame])) evs')" if "ev \<noteq> Unload" for ev evs'
    using t that by blast
  show ?thesis
    using u a c t d [of Frame] d [of "Resize 7 7"] by (simp add: run_boot_frame)
qed

section \<open>The opacity that render stores\<close>

lemma c0001_val: "fl64 (1 / 1000) = 1152921504606847 / 1152921504606846976"
  by (simp add: fl64_eval [where k = "- 10"] round_even_def)

lemma clock_mul: "mul64 1762153214041 (1152921504606847 / 1152921504606846976) = 7391006274265023 / 4194304"
  by (simp add: mul64_def fl64_eval [where k = "30"] round_even_def)

lemma clock_arg: "div64 (7391006274265023 / 4194304) (3 / 4) = 2463668758088341 / 1048576"
  by (simp add: div64_def fl64_eval [where k = "31"] round_even_def)

lemma clock_half: "mul64 (- (8048681622090399 / 9223372036854775808)) (1 / 2) = - (8048681622090399 / 18446744073709551616)"
  by (simp add: mul64_def fl64_eval [where k = "- 12"] round_even_def)

lemma clock_opacity: "add64 (1 / 2) (8048681622090399 / 18446744073709551616) = 2253764823846891 / 4503599627370496"
  by (simp add: add64_def fl64_eval [where k = "- 1"] round_even_def)

lemma clock_div: "div64 1762153214041 1000 = 3695503137132511 / 2097152"
  by (simp add: div64_def fl64_eval [where k = "30"] round_even_def)

lemma claim_arg: "div64 (3695503137132511 / 2097152) (3 / 4) = 4927337516176681 / 2097152"
  by (simp add: div64_def fl64_eval [where k = "31"] round_even_def)

lemma claim_half: "mul64 (1 / 2) (8053079666926031 / 9223372036854775808) = 8053079666926031 / 18446744073709551616"
  by (simp add: mul64_def fl64_eval [where k = "- 12"] round_even_def)

lemma claim_opacity: "add64 (1 / 2) (8053079666926031 / 18446744073709551616) = 1126882948794153 / 2251799813685248"
  by (simp add: add64_def fl64_eval [where k = "- 1"] round_even_def)

lemma second_mul: "mul64 1000 (1152921504606847 / 1152921504606846976) = 1"
  by (simp add: mul64_def fl64_eval [where k = "0"] round_even_def)

lemma second_arg: "div64 1 (3 / 4) = 6004799503160661 / 4503599627370496"
  by (simp add: div64_def fl64_eval [where k = "0"] round_even_def)

text \<open>
  Claim C2, as amended. After one invocation of \<^verbatim>\<open>render\<close>, a star whose twinkle speed
  \<open>v\<close> is not \<^verbatim>\<open>null\<close> and not zero has the opacity that
  \<^verbatim>\<open>0.5 + Math.abs(Math.sin((Date.now() * 0.001) / star.twinkleSpeed) * 0.5)\<close> gives in
  double arithmetic: the clock value times the double nearest 0.001, rounded; that
  divided by \<open>v\<close>, rounded; the engine's sine of the quotient; that times 0.5, rounded;
  its absolute value; and 0.5 plus that, rounded. The clock value is the one read for
  that star during the invocation: one read per twinkling star, among those the
  invocation makes. With a twinkle speed of zero the opacity is NaN.
\<close>

theorem render_opacity_double:
  assumes "i < length (stars s)" "twinkleSpeed (stars s ! i) = Some v"
  shows "(v \<noteq> 0 \<longrightarrow>
            opacity (stars (render e s) ! i)
            = Num (add64 0.5
                    \<bar>mul64 (math_sin e
                             (div64 (mul64 (real_of_int (date_now e (clock_used s + reads_before (stars s) i)))
                                       (fl64 0.001))
                                v))
                       0.5\<bar>))
         \<and> (v = 0 \<longrightarrow> opacity (stars (render e s) ! i) = NaN)
         \<and> clock_used s \<le> clock_used s + reads_before (stars s) i
         \<and> clock_used s + reads_before (stars s) i < clock_used (render e s)"
proof -
  have "reads_before (stars s) i < reads_before (stars s) (length (stars s))"
  proof -
    have "take (length (stars s)) (stars s) = take i (stars s) @ (stars s ! i) # drop (Suc i) (stars s)"
      using assms(1) by (simp add: id_take_nth_drop [symmetric])
    then show ?thesis
      using assms(2) by (simp add: reads_before_def del: take_all)
  qed
  then show ?thesis
    using assms
    by (simp add: render_fields render_stars_nth render_stars_clock twinkle_def)
qed

lemma star_clock:
  "fst (new_star config 100 100 (math_random env_clock) q)
   = \<lparr>x = 50, y = 50, radius = 4728779608739021 / 9007199254740992, opacity = Num (3 / 4),
       twinkleSpeed = Some (3 / 4)\<rparr>"
  by (simp add: new_star_def config_def env_clock_def half_x c005_val half_r1 half_r2
      half_o1 half_o2 sub_speed half_s2)

lemma sin_clock:
  "math_sin env_clock (2463668758088341 / 1048576) = - (8048681622090399 / 9223372036854775808)"
  "math_sin env_clock (4927337516176681 / 2097152) = - (8053079666926031 / 9223372036854775808)"
  "date_now env_clock n = 1762153214041"
  by (simp_all add: env_clock_def)

lemma twinkle_clock:
  "twinkle env_clock 1762153214041 (3 / 4) = Num (2253764823846891 / 4503599627370496)"
  by (simp add: twinkle_def c0001_val clock_mul clock_arg sin_clock clock_half clock_opacity)

lemma boot_first_star:
  "stars (boot config e 100 100)
   = fst (render_stars e [fst (new_star config 100 100 (math_random e) 0)]
            [ClearRect 0 0 (real (to_dimension 100 300)) (real (to_dimension 100 150))] 0)"
proof -
  have f: "falsy (animationFrameId (initial\<lparr>observing := True\<rparr>))"
    by (simp add: falsy_def initial_def)
  have "stars (boot config e 100 100)
          = fst (render_stars e
                   (fst (generateStars config 100 100 (math_random e)
                          (random_used (initial\<lparr>observing := True\<rparr>))))
                   (ctx_calls (initial\<lparr>observing := True\<rparr>)
                    @ [ClearRect 0 0 (real (to_dimension 100 300)) (real (to_dimension 100 150))])
                   (clock_used (initial\<lparr>observing := True\<rparr>)))"
    unfolding boot_alt by (rule updateStars_start(3) [OF _ _ f]) simp_all
  then show ?thesis by (simp add: initial_def generate_one)
qed

text \<open>
  Claim C2 as stated, with the opacity exactly
  \<open>0.5 + 0.5 * |sin((currentTimeMillis / 1000) / twinkleSpeed)|\<close>, fails in doubles:
  \<^verbatim>\<open>t * 0.001\<close> and \<^verbatim>\<open>t / 1000\<close> round differently. On a canvas of 100 by 100 the
  script generates one star, here with twinkle speed 0.75. With the clock at
  1762153214041 the first \<^verbatim>\<open>render\<close> takes the sine at \<open>2349537618.7213335\<close> and stores
  the opacity \<open>0.5004363199050157\<close>; the claimed expression takes the sine at
  \<open>2349537618.721333\<close> and has the value \<open>0.500436558323504\<close>.
\<close>

theorem render_opacity_exact_fails:
  "twinkleSpeed (hd (fst (generateStars config 100 100 (math_random env_clock) 0))) = Some (3 / 4)
   \<and> date_now env_clock 0 = 1762153214041
   \<and> opacity (hd (stars (boot config env_clock 100 100)))
       = Num (2253764823846891 / 4503599627370496)
   \<and> add64 0.5 (mul64 0.5 \<bar>math_sin env_clock (div64 (div64 1762153214041 1000) (3 / 4))\<bar>)
       = 1126882948794153 / 2251799813685248
   \<and> (2253764823846891 / 4503599627370496 :: real) \<noteq> 1126882948794153 / 2251799813685248"
proof -
  have a: "opacity (hd (stars (boot config env_clock 100 100)))
       = Num (2253764823846891 / 4503599627370496)"
    unfolding boot_first_star star_clock
    by (simp add: Let_def sin_clock twinkle_clock)
  have b: "add64 0.5 (mul64 0.5 \<bar>math_sin env_clock (div64 (div64 1762153214041 1000) (3 / 4))\<bar>)
       = 1126882948794153 / 2251799813685248"
    by (simp add: clock_div claim_arg sin_clock claim_half claim_opacity)
  show ?thesis
    using a b by (simp add: generate_one star_clock sin_clock)
qed

theorem render_opacity_double_witness:
  "0 < length (stars two_stars) \<and> twinkleSpeed (stars two_stars ! 0) = Some (3 / 4)
   \<and> (3 / 4 :: real) \<noteq> 0
   \<and> opacity (stars (render env_half two_stars) ! 0)
       = Num (add64 (1 / 2) \<bar>mul64 (fl64 (sin (6004799503160661 / 4503599627370496))) (1 / 2)\<bar>)
   \<and> clock_used (render env_half two_stars) = 1"
proof -
  have l: "0 < length (stars two_stars)" and v: "twinkleSpeed (stars two_stars ! 0) = Some (3 / 4)"
    by (simp_all add: two_stars_def)
  have r: "reads_before (stars two_stars) 0 = 0" by (simp add: reads_before_def)
  have c: "clock_used two_stars = 0" by (simp add: two_stars_def initial_def)
  have d: "date_now env_half 0 = 1000" "math_sin env_half = (\<lambda>v. fl64 (sin v))"
    by (simp_all add: env_half_def)
  have k: "clock_used (render env_half two_stars) = 1"
    by (simp add: render_fields(3) render_stars_clock reads_before_def two_stars_def initial_def)
  show ?thesis
    using render_opacity_double [OF l v, of env_half] l v k
    by (simp add: r c d c0001_val second_mul second_arg)
qed

section \<open>The range of the opacity\<close>


















end
